theory Spec2Isabelle
  imports Complex_Main
begin

section \<open>JavaScript strings and values\<close>

text \<open>
  A JavaScript string is a sequence of UTF-16 code units; \<open>.length\<close>, \<open>.startsWith\<close>,
  \<open>.trim()\<close> and the regular expressions of the schemas all work on code units. A code
  unit is a natural number here. \<open>S\<close> turns a literal of the source into its code units.
\<close>

type_synonym jsstring = "nat list"

definition S :: "string \<Rightarrow> jsstring" where
  "S s = map of_char s"

text \<open>\<open>String.prototype.startsWith\<close> and \<open>String.prototype.includes\<close>.\<close>

definition startsWith :: "jsstring \<Rightarrow> jsstring \<Rightarrow> bool" where
  "startsWith s p = (take (length p) s = p)"

fun js_includes :: "jsstring \<Rightarrow> jsstring \<Rightarrow> bool" where
  "js_includes [] t = (t = [])"
| "js_includes (c # s) t = (startsWith (c # s) t \<or> js_includes s t)"

text \<open>
  \<open>String.prototype.trim\<close> removes leading and trailing WhiteSpace and LineTerminator
  code units (ECMA-262, 22.1.3.32).
\<close>

definition js_whitespace :: "nat \<Rightarrow> bool" where
  "js_whitespace c =
     (c = 9 \<or> c = 10 \<or> c = 11 \<or> c = 12 \<or> c = 13 \<or> c = 32 \<or> c = 160 \<or> c = 5760
      \<or> (8192 \<le> c \<and> c \<le> 8202) \<or> c = 8232 \<or> c = 8233 \<or> c = 8239 \<or> c = 8287
      \<or> c = 12288 \<or> c = 65279)"

definition js_trim :: "jsstring \<Rightarrow> jsstring" where
  "js_trim s = rev (dropWhile js_whitespace (rev (dropWhile js_whitespace s)))"

text \<open>
  Numbers are IEEE doubles; the schemas only compare them and ask whether they are
  integers, so a finite double is the rational it denotes.
\<close>

datatype jsnum = NaN | PosInfinity | NegInfinity | Finite rat

text \<open>
  The values a schema can be handed: the primitives, and \<open>File\<close> for the objects a
  \<open>FormData\<close> can hold besides strings, which the schemas never look into.
\<close>

datatype jsval = Undefined | Null | Bool bool | Num jsnum | Str jsstring | File

fun truthy :: "jsval \<Rightarrow> bool" where
  "truthy Undefined = False"
| "truthy Null = False"
| "truthy (Bool b) = b"
| "truthy (Num NaN) = False"
| "truthy (Num (Finite r)) = (r \<noteq> 0)"
| "truthy (Num _) = True"
| "truthy (Str s) = (s \<noteq> [])"
| "truthy File = True"

text \<open>
  A plain object is the list of its own properties in insertion order. Reading a missing
  property yields \<open>undefined\<close>; \<open>k in obj\<close> is \<open>has_prop\<close>.
\<close>

type_synonym jsobject = "(jsstring \<times> jsval) list"

definition get_prop :: "jsobject \<Rightarrow> jsstring \<Rightarrow> jsval" where
  "get_prop obj k = (case map_of obj k of None \<Rightarrow> Undefined | Some v \<Rightarrow> v)"

definition has_prop :: "jsobject \<Rightarrow> jsstring \<Rightarrow> bool" where
  "has_prop obj k = (map_of obj k \<noteq> None)"

fun set_prop :: "jsobject \<Rightarrow> jsstring \<Rightarrow> jsval \<Rightarrow> jsobject" where
  "set_prop [] k v = [(k, v)]"
| "set_prop ((k', v') # ps) k v = (if k' = k then (k, v) # ps else (k', v') # set_prop ps k v)"

text \<open>\<open>Object.fromEntries\<close>: the entries are assigned in order, a later one wins.\<close>

definition Object_fromEntries :: "(jsstring \<times> jsval) list \<Rightarrow> jsobject" where
  "Object_fromEntries entries = foldl (\<lambda>obj (k, v). set_prop obj k v) [] entries"

text \<open>
  What the schemas use of the platform and of the validation library's internals, none of
  it code of this repository: the library's email and UUID patterns, whether \<open>new URL(s)\<close>
  succeeds, \<open>String.prototype.toLowerCase\<close>, the number a string converts to, and the
  time value of \<open>new Date(v)\<close> (\<open>NaN\<close> for an invalid date). They are parameters of
  every schema.
\<close>

record platform =
  emailRegex :: "jsstring \<Rightarrow> bool"
  uuidRegex :: "jsstring \<Rightarrow> bool"
  isURL :: "jsstring \<Rightarrow> bool"
  toLowerCase :: "jsstring \<Rightarrow> jsstring"
  StringToNumber :: "jsstring \<Rightarrow> jsnum"
  DateValue :: "jsval \<Rightarrow> jsnum"

text \<open>The coercion \<open>Number(v)\<close>.\<close>

fun js_Number :: "platform \<Rightarrow> jsval \<Rightarrow> jsnum" where
  "js_Number P Undefined = NaN"
| "js_Number P Null = Finite 0"
| "js_Number P (Bool b) = Finite (if b then 1 else 0)"
| "js_Number P (Num n) = n"
| "js_Number P (Str s) = StringToNumber P s"
| "js_Number P File = NaN"

section \<open>The validation library as the schemas use it\<close>

text \<open>
  An issue is a path and a message. A parse returns a status with a value (\<open>OK\<close>,
  \<open>DIRTY\<close>) or aborts (\<open>INVALID\<close>), together with the issues it raised.
\<close>

type_synonym issue = "jsstring list \<times> jsstring"

datatype 'a parse_return = OK 'a | DIRTY 'a | INVALID

type_synonym 'a parsed = "'a parse_return \<times> issue list"

type_synonym schema = "jsval \<Rightarrow> jsval parsed"

fun getParsedType :: "jsval \<Rightarrow> jsstring" where
  "getParsedType Undefined = S ''undefined''"
| "getParsedType Null = S ''null''"
| "getParsedType (Bool b) = S ''boolean''"
| "getParsedType (Num NaN) = S ''nan''"
| "getParsedType (Num n) = S ''number''"
| "getParsedType (Str s) = S ''string''"
| "getParsedType File = S ''object''"

text \<open>The default message of an \<open>invalid_type\<close> issue.\<close>

definition invalid_type :: "jsstring \<Rightarrow> jsval \<Rightarrow> issue" where
  "invalid_type expected v =
     ([], if v = Undefined then S ''Required''
          else S ''Expected '' @ expected @ S '', received '' @ getParsedType v)"

subsection \<open>Strings\<close>

text \<open>
  The checks of a string schema run in the order they were chained; each failing check
  adds its issue and parsing goes on, \<open>trim\<close> and \<open>toLowerCase\<close> rewrite the value for
  the checks after them. A regular expression of the source is the predicate it decides.
\<close>

datatype check =
    Min nat jsstring
  | Max nat jsstring
  | Length nat jsstring
  | Email jsstring
  | Url jsstring
  | Uuid jsstring
  | Regex "jsstring \<Rightarrow> bool" jsstring
  | Trim
  | ToLowerCase

fun check_step :: "platform \<Rightarrow> check \<Rightarrow> jsstring \<Rightarrow> jsstring \<times> issue list" where
  "check_step P (Min n m) s = (s, if length s < n then [([], m)] else [])"
| "check_step P (Max n m) s = (s, if length s > n then [([], m)] else [])"
| "check_step P (Length n m) s = (s, if length s \<noteq> n then [([], m)] else [])"
| "check_step P (Email m) s = (s, if emailRegex P s then [] else [([], m)])"
| "check_step P (Url m) s = (s, if isURL P s then [] else [([], m)])"
| "check_step P (Uuid m) s = (s, if uuidRegex P s then [] else [([], m)])"
| "check_step P (Regex r m) s = (s, if r s then [] else [([], m)])"
| "check_step P Trim s = (js_trim s, [])"
| "check_step P ToLowerCase s = (toLowerCase P s, [])"

fun run_checks :: "platform \<Rightarrow> check list \<Rightarrow> jsstring \<Rightarrow> jsstring \<times> issue list" where
  "run_checks P [] s = (s, [])"
| "run_checks P (c # cs) s =
     (case check_step P c s of (s1, is1) \<Rightarrow>
        (case run_checks P cs s1 of (s2, is2) \<Rightarrow> (s2, is1 @ is2)))"

definition z_string :: "platform \<Rightarrow> check list \<Rightarrow> schema" where
  "z_string P cs v =
     (case v of
        Str s \<Rightarrow>
          (case run_checks P cs s of
             (s', iss) \<Rightarrow> (if iss = [] then OK (Str s') else DIRTY (Str s'), iss))
      | _ \<Rightarrow> (INVALID, [invalid_type (S ''string'') v]))"

subsection \<open>Numbers and dates\<close>

text \<open>
  \<open>z.coerce.number()\<close> converts its input with \<open>Number\<close> and aborts on \<open>NaN\<close>; its
  checks all run and each failing one adds its issue. \<open>IsInt\<close> is \<open>.int()\<close>; \<open>NMin\<close> and
  \<open>NMax\<close> carry the bound and whether it is inclusive (\<open>.min\<close>, \<open>.max\<close>) or not
  (\<open>.positive\<close>).
\<close>

datatype num_check = IsInt jsstring | NMin rat bool jsstring | NMax rat bool jsstring

fun num_less :: "jsnum \<Rightarrow> rat \<Rightarrow> bool" where
  "num_less NaN b = False"
| "num_less NegInfinity b = True"
| "num_less PosInfinity b = False"
| "num_less (Finite r) b = (r < b)"

fun num_greater :: "jsnum \<Rightarrow> rat \<Rightarrow> bool" where
  "num_greater NaN b = False"
| "num_greater NegInfinity b = False"
| "num_greater PosInfinity b = True"
| "num_greater (Finite r) b = (r > b)"

fun isInteger :: "jsnum \<Rightarrow> bool" where
  "isInteger (Finite r) = (r = of_int \<lfloor>r\<rfloor>)"
| "isInteger _ = False"

fun num_check_issues :: "num_check \<Rightarrow> jsnum \<Rightarrow> issue list" where
  "num_check_issues (IsInt m) n = (if isInteger n then [] else [([], m)])"
| "num_check_issues (NMin b inclusive m) n =
     (if (if inclusive then num_less n b else num_less n b \<or> n = Finite b)
      then [([], m)] else [])"
| "num_check_issues (NMax b inclusive m) n =
     (if (if inclusive then num_greater n b else num_greater n b \<or> n = Finite b)
      then [([], m)] else [])"

definition z_coerce_number :: "platform \<Rightarrow> num_check list \<Rightarrow> schema" where
  "z_coerce_number P cs v =
     (if js_Number P v = NaN then (INVALID, [([], S ''Expected number, received nan'')])
      else (if concat (map (\<lambda>c. num_check_issues c (js_Number P v)) cs) = []
            then OK (Num (js_Number P v)) else DIRTY (Num (js_Number P v)),
            concat (map (\<lambda>c. num_check_issues c (js_Number P v)) cs)))"

text \<open>
  \<open>z.coerce.date()\<close> builds \<open>new Date(v)\<close> and aborts when it is not a valid date. The
  date it returns is represented by its time value.
\<close>

definition z_coerce_date :: "platform \<Rightarrow> schema" where
  "z_coerce_date P v =
     (if DateValue P v = NaN then (INVALID, [([], S ''Invalid date'')])
      else (OK (Num (DateValue P v)), []))"

subsection \<open>Literals, enums, optional, default, union, transform\<close>

definition z_literal_empty :: schema where
  "z_literal_empty v =
     (if v = Str [] then (OK v, [])
      else (INVALID, [([], S ''Invalid literal value, expected \"\"'')]))"

definition joinValues :: "jsstring list \<Rightarrow> jsstring" where
  "joinValues vals =
     concat (case map (\<lambda>v. S [CHR 0x27] @ v @ S [CHR 0x27]) vals of
               [] \<Rightarrow> []
             | q # qs \<Rightarrow> q # map (\<lambda>x. S '' | '' @ x) qs)"

definition z_enum :: "jsstring list \<Rightarrow> schema" where
  "z_enum vals v =
     (case v of
        Str s \<Rightarrow>
          (if s \<in> set vals then (OK v, [])
           else (INVALID,
                 [([], S ''Invalid enum value. Expected '' @ joinValues vals
                        @ S '', received '' @ S [CHR 0x27] @ s @ S [CHR 0x27])]))
      | _ \<Rightarrow> (INVALID, [invalid_type (joinValues vals) v]))"

definition optional :: "schema \<Rightarrow> schema" where
  "optional inner v = (if v = Undefined then (OK Undefined, []) else inner v)"

definition default :: "schema \<Rightarrow> jsval \<Rightarrow> schema" where
  "default inner d v = inner (if v = Undefined then d else v)"

text \<open>
  \<open>a.or(b)\<close> is the union of \<open>a\<close> and \<open>b\<close>: the first option that parses cleanly
  wins; failing that the first option that parsed with issues is returned with its
  issues; when both abort the union aborts with one \<open>invalid_union\<close> issue.
\<close>

definition or :: "schema \<Rightarrow> schema \<Rightarrow> schema" where
  "or a b v =
     (case a v of
        (OK x, _) \<Rightarrow> (OK x, [])
      | (DIRTY x, ia) \<Rightarrow>
          (case b v of (OK y, _) \<Rightarrow> (OK y, []) | _ \<Rightarrow> (DIRTY x, ia))
      | (INVALID, _) \<Rightarrow>
          (case b v of
             (OK y, _) \<Rightarrow> (OK y, [])
           | (DIRTY y, ib) \<Rightarrow> (DIRTY y, ib)
           | (INVALID, _) \<Rightarrow> (INVALID, [([], S ''Invalid input'')])))"

text \<open>A transform runs on a clean parse only; any other result is passed on as it is.\<close>

definition transform :: "schema \<Rightarrow> (jsval \<Rightarrow> jsval) \<Rightarrow> schema" where
  "transform inner f v =
     (case inner v of (OK x, iss) \<Rightarrow> (OK (f x), iss) | r \<Rightarrow> r)"

text \<open>The arrow function \<open>(val) => val || undefined\<close> of the schemas.\<close>

definition or_undefined :: "jsval \<Rightarrow> jsval" where
  "or_undefined val = (if truthy val then val else Undefined)"

subsection \<open>Objects\<close>

text \<open>
  An object schema parses every key of its shape, in the shape's order, against the
  property of that name, and drops every other property. The issues of a key get the key
  in front of their path. One aborted key aborts the object, one key with issues makes it
  dirty. A key is written to the result when its value is defined or the input had it.
\<close>

type_synonym shape = "(jsstring \<times> schema) list"

fun mergeObjectSync ::
  "bool \<Rightarrow> jsobject \<Rightarrow> (jsstring \<times> jsval parse_return \<times> bool) list \<Rightarrow> jsobject parse_return"
where
  "mergeObjectSync d acc [] = (if d then DIRTY acc else OK acc)"
| "mergeObjectSync d acc ((k, INVALID, alwaysSet) # ps) = INVALID"
| "mergeObjectSync d acc ((k, DIRTY v, alwaysSet) # ps) =
     mergeObjectSync True
       (if k \<noteq> S ''__proto__'' \<and> (v \<noteq> Undefined \<or> alwaysSet) then acc @ [(k, v)] else acc) ps"
| "mergeObjectSync d acc ((k, OK v, alwaysSet) # ps) =
     mergeObjectSync d
       (if k \<noteq> S ''__proto__'' \<and> (v \<noteq> Undefined \<or> alwaysSet) then acc @ [(k, v)] else acc) ps"

definition key_issues :: "jsobject \<Rightarrow> jsstring \<times> schema \<Rightarrow> issue list" where
  "key_issues obj ks = map (\<lambda>(p, m). (fst ks # p, m)) (snd (snd ks (get_prop obj (fst ks))))"

definition z_object :: "shape \<Rightarrow> jsobject \<Rightarrow> jsobject parsed" where
  "z_object shp obj =
     (mergeObjectSync False []
        (map (\<lambda>(k, s). (k, fst (s (get_prop obj k)), has_prop obj k)) shp),
      concat (map (key_issues obj) shp))"

text \<open>\<open>.partial()\<close> makes every key of the shape optional.\<close>

definition partial :: "shape \<Rightarrow> shape" where
  "partial shp = map (\<lambda>(k, s). (k, optional s)) shp"

text \<open>
  \<open>.refine(pred, {message, path})\<close> on an object schema: an aborted object stays
  aborted; otherwise the predicate runs on the parsed value, also on a dirty one, and
  a failure adds the issue.
\<close>

definition refine ::
  "(jsobject \<Rightarrow> jsobject parsed) \<Rightarrow> (jsobject \<Rightarrow> bool) \<Rightarrow> issue \<Rightarrow> jsobject \<Rightarrow> jsobject parsed"
where
  "refine inner pred iss obj =
     (case inner obj of
        (INVALID, i) \<Rightarrow> (INVALID, i)
      | (DIRTY x, i) \<Rightarrow> (DIRTY x, if pred x then i else i @ [iss])
      | (OK x, i) \<Rightarrow> (if pred x then (OK x, i) else (DIRTY x, i @ [iss])))"

text \<open>
  \<open>safeParse\<close> succeeds on a clean parse and otherwise fails with the issues;
  \<open>error.flatten().fieldErrors\<close> groups the messages of the issues with a non-empty path
  under the first element of the path, in the order the issues were raised.
\<close>

definition safeParse :: "('a \<Rightarrow> 'b parsed) \<Rightarrow> 'a \<Rightarrow> issue list + 'b" where
  "safeParse sch x = (case sch x of (OK v, _) \<Rightarrow> Inr v | (_, iss) \<Rightarrow> Inl iss)"

type_synonym field_errors = "(jsstring \<times> jsstring list) list"

fun push_message :: "field_errors \<Rightarrow> jsstring \<Rightarrow> jsstring \<Rightarrow> field_errors" where
  "push_message [] k m = [(k, [m])]"
| "push_message ((k', ms) # fe) k m =
     (if k' = k then (k', ms @ [m]) # fe else (k', ms) # push_message fe k m)"

definition fieldErrors :: "issue list \<Rightarrow> field_errors" where
  "fieldErrors iss =
     foldl (\<lambda>fe i. case i of ([], m) \<Rightarrow> fe | (k # p, m) \<Rightarrow> push_message fe k m) [] iss"

text \<open>The messages of the issues whose path starts with a given key, in order.\<close>

fun messages_at :: "jsstring \<Rightarrow> issue list \<Rightarrow> jsstring list" where
  "messages_at k [] = []"
| "messages_at k (([], m) # iss) = messages_at k iss"
| "messages_at k ((k' # p, m) # iss) =
     (if k' = k then m # messages_at k iss else messages_at k iss)"

text \<open>A parse is clean when its status is \<open>OK\<close>; its messages are those of its issues.\<close>

definition clean :: "'a parsed \<Rightarrow> bool" where
  "clean r = (case fst r of OK v \<Rightarrow> True | _ \<Rightarrow> False)"

definition messages :: "'a parsed \<Rightarrow> jsstring list" where
  "messages r = map snd (snd r)"

text \<open>A schema reports when every parse of it that is not clean raises an issue.\<close>

definition reports :: "('a \<Rightarrow> 'b parsed) \<Rightarrow> bool" where
  "reports sch = (\<forall>v. clean (sch v) \<or> snd (sch v) \<noteq> [])"

text \<open>
  A schema accepts an object when \<open>safeParse\<close> succeeds on it. A schema validates field
  by field when a verdict on each property's value alone decides whether it accepts: there
  is a test of one key and one value such that the schema accepts exactly the objects
  whose every property passes the test.
\<close>

definition accepts :: "(jsobject \<Rightarrow> 'b parsed) \<Rightarrow> jsobject \<Rightarrow> bool" where
  "accepts sch obj = (case safeParse sch obj of Inr v \<Rightarrow> True | Inl iss \<Rightarrow> False)"

definition field_local :: "(jsobject \<Rightarrow> 'b parsed) \<Rightarrow> bool" where
  "field_local sch =
     (\<exists>ok. \<forall>obj. accepts sch obj = (\<forall>k. ok k (get_prop obj k)))"

text \<open>
  The messages of a schema are field by field when the error entry of a key is decided by
  the value of that property alone: two objects with the same value there get the same
  entry.
\<close>

definition field_messages_local :: "(jsobject \<Rightarrow> 'b parsed) \<Rightarrow> bool" where
  "field_messages_local sch =
     (\<forall>obj obj' k. get_prop obj k = get_prop obj' k \<longrightarrow>
        map_of (fieldErrors (snd (sch obj))) k = map_of (fieldErrors (snd (sch obj'))) k)"

text \<open>The comparison \<open>===\<close> on primitives: \<open>NaN\<close> differs from itself.\<close>

definition strict_equals :: "jsval \<Rightarrow> jsval \<Rightarrow> bool" where
  "strict_equals a b = (a = b \<and> a \<noteq> Num NaN)"

section \<open>The schemas\<close>

subsection \<open>Shared schemas\<close>

definition emailSchema :: "platform \<Rightarrow> schema" where
  "emailSchema P =
     z_string P [Min 1 (S ''Email is required''), Email (S ''Invalid email address''),
                 ToLowerCase, Trim]"

text \<open>
  The pattern \<open>/^\+?[1-9]\d{1,14}$/\<close>: an optional plus sign, a digit from 1 to 9, then
  one to fourteen digits, and nothing else.
\<close>

definition is_digit :: "nat \<Rightarrow> bool" where
  "is_digit c = (48 \<le> c \<and> c \<le> 57)"

definition phone_pattern :: "jsstring \<Rightarrow> bool" where
  "phone_pattern s =
     (case (case s of [] \<Rightarrow> [] | c # r \<Rightarrow> if c = 43 then r else s) of
        [] \<Rightarrow> False
      | d # ds \<Rightarrow> 49 \<le> d \<and> d \<le> 57 \<and> 1 \<le> length ds \<and> length ds \<le> 14 \<and> list_all is_digit ds)"

definition phoneSchema :: "platform \<Rightarrow> schema" where
  "phoneSchema P =
     transform
       (or (optional (z_string P [Regex phone_pattern (S ''Invalid phone number format'')]))
           z_literal_empty)
       or_undefined"

definition urlSchema :: "platform \<Rightarrow> schema" where
  "urlSchema P =
     transform
       (or (optional (z_string P [Url (S ''Invalid URL format'')])) z_literal_empty)
       or_undefined"

definition uuidSchema :: "platform \<Rightarrow> schema" where
  "uuidSchema P = z_string P [Uuid (S ''Invalid ID format'')]"

definition paginationSchema_shape :: "platform \<Rightarrow> shape" where
  "paginationSchema_shape P =
     [(S ''page'',
         default
           (z_coerce_number P
              [IsInt (S ''Expected integer, received float''),
               NMin 0 False (S ''Number must be greater than 0'')])
           (Num (Finite 1))),
      (S ''limit'',
         default
           (z_coerce_number P
              [IsInt (S ''Expected integer, received float''),
               NMin 1 True (S ''Number must be greater than or equal to 1''),
               NMax 100 True (S ''Number must be less than or equal to 100'')])
           (Num (Finite 20)))]"

definition paginationSchema :: "platform \<Rightarrow> jsobject \<Rightarrow> jsobject parsed" where
  "paginationSchema P = z_object (paginationSchema_shape P)"

definition searchParamsSchema_shape :: "platform \<Rightarrow> shape" where
  "searchParamsSchema_shape P =
     paginationSchema_shape P @
     [(S ''search'',
         optional (z_string P [Max 100 (S ''String must contain at most 100 character(s)'')])),
      (S ''sortBy'', optional (z_string P [])),
      (S ''sortOrder'', default (optional (z_enum [S ''asc'', S ''desc''])) (Str (S ''desc'')))]"

definition searchParamsSchema :: "platform \<Rightarrow> jsobject \<Rightarrow> jsobject parsed" where
  "searchParamsSchema P = z_object (searchParamsSchema_shape P)"

definition dateRangeSchema_shape :: "platform \<Rightarrow> shape" where
  "dateRangeSchema_shape P =
     [(S ''from'', optional (z_coerce_date P)), (S ''to'', optional (z_coerce_date P))]"

definition dateRangeSchema :: "platform \<Rightarrow> jsobject \<Rightarrow> jsobject parsed" where
  "dateRangeSchema P = z_object (dateRangeSchema_shape P)"

definition currencySchema :: "platform \<Rightarrow> schema" where
  "currencySchema P =
     optional
       (z_coerce_number P
          [IsInt (S ''Expected integer, received float''),
           NMin 0 True (S ''Amount must be positive'')])"

definition percentageSchema :: "platform \<Rightarrow> schema" where
  "percentageSchema P =
     optional
       (z_coerce_number P
          [IsInt (S ''Expected integer, received float''),
           NMin 0 True (S ''Must be at least 0''),
           NMax 100 True (S ''Must be at most 100'')])"

subsection \<open>Authentication schemas\<close>

text \<open>The patterns \<open>/[A-Z]/\<close>, \<open>/[a-z]/\<close> and \<open>/[0-9]/\<close>.\<close>

definition has_uppercase :: "jsstring \<Rightarrow> bool" where
  "has_uppercase s = list_ex (\<lambda>c. 65 \<le> c \<and> c \<le> 90) s"

definition has_lowercase :: "jsstring \<Rightarrow> bool" where
  "has_lowercase s = list_ex (\<lambda>c. 97 \<le> c \<and> c \<le> 122) s"

definition has_number :: "jsstring \<Rightarrow> bool" where
  "has_number s = list_ex is_digit s"

definition passwordChecks :: "check list" where
  "passwordChecks =
     [Min 8 (S ''Password must be at least 8 characters''),
      Regex has_uppercase (S ''Password must contain at least one uppercase letter''),
      Regex has_lowercase (S ''Password must contain at least one lowercase letter''),
      Regex has_number (S ''Password must contain at least one number'')]"

definition loginSchema_shape :: "platform \<Rightarrow> shape" where
  "loginSchema_shape P =
     [(S ''email'', emailSchema P),
      (S ''password'', z_string P [Min 1 (S ''Password is required'')])]"

definition loginSchema :: "platform \<Rightarrow> jsobject \<Rightarrow> jsobject parsed" where
  "loginSchema P = z_object (loginSchema_shape P)"

text \<open>The object of \<open>registerSchema\<close>, before \<open>.refine\<close>.\<close>

definition registerSchema_shape :: "platform \<Rightarrow> shape" where
  "registerSchema_shape P =
     [(S ''email'', emailSchema P),
      (S ''password'', z_string P passwordChecks),
      (S ''confirmPassword'', z_string P [Min 1 (S ''Please confirm your password'')]),
      (S ''fullName'',
         z_string P [Min 2 (S ''Name must be at least 2 characters''),
                     Max 100 (S ''Name must be less than 100 characters'')])]"

definition passwordsMatch :: "jsobject \<Rightarrow> bool" where
  "passwordsMatch data =
     strict_equals (get_prop data (S ''password'')) (get_prop data (S ''confirmPassword''))"

definition registerSchema :: "platform \<Rightarrow> jsobject \<Rightarrow> jsobject parsed" where
  "registerSchema P =
     refine (z_object (registerSchema_shape P)) passwordsMatch
       ([S ''confirmPassword''], S ''Passwords do not match'')"

definition forgotPasswordSchema_shape :: "platform \<Rightarrow> shape" where
  "forgotPasswordSchema_shape P = [(S ''email'', emailSchema P)]"

definition forgotPasswordSchema :: "platform \<Rightarrow> jsobject \<Rightarrow> jsobject parsed" where
  "forgotPasswordSchema P = z_object (forgotPasswordSchema_shape P)"

text \<open>The object of \<open>resetPasswordSchema\<close>, before \<open>.refine\<close>.\<close>

definition resetPasswordSchema_shape :: "platform \<Rightarrow> shape" where
  "resetPasswordSchema_shape P =
     [(S ''password'', z_string P passwordChecks),
      (S ''confirmPassword'', z_string P [Min 1 (S ''Please confirm your password'')])]"

definition resetPasswordSchema :: "platform \<Rightarrow> jsobject \<Rightarrow> jsobject parsed" where
  "resetPasswordSchema P =
     refine (z_object (resetPasswordSchema_shape P)) passwordsMatch
       ([S ''confirmPassword''], S ''Passwords do not match'')"

definition updateProfileSchema_shape :: "platform \<Rightarrow> shape" where
  "updateProfileSchema_shape P =
     [(S ''fullName'',
         optional
           (z_string P [Min 2 (S ''Name must be at least 2 characters''),
                        Max 100 (S ''Name must be less than 100 characters'')])),
      (S ''avatarUrl'', or (optional (z_string P [Url (S ''Invalid URL'')])) z_literal_empty)]"

definition updateProfileSchema :: "platform \<Rightarrow> jsobject \<Rightarrow> jsobject parsed" where
  "updateProfileSchema P = z_object (updateProfileSchema_shape P)"

subsection \<open>Contact schemas\<close>

definition contactTypes :: "jsstring list" where
  "contactTypes = [S ''lead'', S ''customer'', S ''partner'', S ''vendor'', S ''other'']"

text \<open>The object literal handed to \<open>z.object\<close> for \<open>contactSchema\<close>.\<close>

definition contactSchema_shape :: "platform \<Rightarrow> shape" where
  "contactSchema_shape P =
     [(S ''firstName'',
         z_string P [Min 1 (S ''First name is required''),
                     Max 100 (S ''First name must be less than 100 characters''), Trim]),
      (S ''lastName'',
         z_string P [Min 1 (S ''Last name is required''),
                     Max 100 (S ''Last name must be less than 100 characters''), Trim]),
      (S ''email'', emailSchema P),
      (S ''phone'', phoneSchema P),
      (S ''title'',
         transform
           (or (optional (z_string P [Max 100 (S ''Title must be less than 100 characters'')]))
               z_literal_empty)
           or_undefined),
      (S ''type'', default (optional (z_enum contactTypes)) (Str (S ''lead''))),
      (S ''organizationId'',
         transform (or (optional (uuidSchema P)) z_literal_empty) or_undefined),
      (S ''notes'',
         transform
           (or (optional (z_string P [Max 2000 (S ''Notes must be less than 2000 characters'')]))
               z_literal_empty)
           or_undefined),
      (S ''linkedinUrl'', urlSchema P),
      (S ''twitterUrl'', urlSchema P)]"

definition contactSchema :: "platform \<Rightarrow> jsobject \<Rightarrow> jsobject parsed" where
  "contactSchema P = z_object (contactSchema_shape P)"

definition contactUpdateSchema :: "platform \<Rightarrow> jsobject \<Rightarrow> jsobject parsed" where
  "contactUpdateSchema P = z_object (partial (contactSchema_shape P))"

definition contactSearchSchema_shape :: "platform \<Rightarrow> shape" where
  "contactSearchSchema_shape P =
     [(S ''search'',
         optional (z_string P [Max 100 (S ''String must contain at most 100 character(s)'')])),
      (S ''type'', optional (z_enum contactTypes)),
      (S ''organizationId'', optional (uuidSchema P)),
      (S ''page'',
         default
           (z_coerce_number P
              [IsInt (S ''Expected integer, received float''),
               NMin 0 False (S ''Number must be greater than 0'')])
           (Num (Finite 1))),
      (S ''limit'',
         default
           (z_coerce_number P
              [IsInt (S ''Expected integer, received float''),
               NMin 1 True (S ''Number must be greater than or equal to 1''),
               NMax 100 True (S ''Number must be less than or equal to 100'')])
           (Num (Finite 20))),
      (S ''sortBy'',
         default
           (optional (z_enum [S ''firstName'', S ''lastName'', S ''email'', S ''createdAt'']))
           (Str (S ''createdAt''))),
      (S ''sortOrder'', default (optional (z_enum [S ''asc'', S ''desc''])) (Str (S ''desc'')))]"

definition contactSearchSchema :: "platform \<Rightarrow> jsobject \<Rightarrow> jsobject parsed" where
  "contactSearchSchema P = z_object (contactSearchSchema_shape P)"

text \<open>The schema of one row of a bulk import; \<open>contactImportSchema\<close> is an array of it.\<close>

definition contactImportRowSchema_shape :: "platform \<Rightarrow> shape" where
  "contactImportRowSchema_shape P =
     [(S ''firstName'', z_string P [Min 1 (S ''String must contain at least 1 character(s)'')]),
      (S ''lastName'', z_string P [Min 1 (S ''String must contain at least 1 character(s)'')]),
      (S ''email'', z_string P [Email (S ''Invalid email'')]),
      (S ''phone'', optional (z_string P [])),
      (S ''title'', optional (z_string P [])),
      (S ''type'', optional (z_enum contactTypes)),
      (S ''notes'', optional (z_string P []))]"

definition contactImportRowSchema :: "platform \<Rightarrow> jsobject \<Rightarrow> jsobject parsed" where
  "contactImportRowSchema P = z_object (contactImportRowSchema_shape P)"

subsection \<open>Deal schemas\<close>

definition dealStages :: "jsstring list" where
  "dealStages =
     [S ''lead'', S ''qualified'', S ''proposal'', S ''negotiation'', S ''closed_won'',
      S ''closed_lost'']"

definition dealSchema_shape :: "platform \<Rightarrow> shape" where
  "dealSchema_shape P =
     [(S ''title'',
         z_string P [Min 1 (S ''Deal title is required''),
                     Max 200 (S ''Title must be less than 200 characters''), Trim]),
      (S ''description'',
         transform
           (or (optional
                  (z_string P [Max 2000 (S ''Description must be less than 2000 characters'')]))
               z_literal_empty)
           or_undefined),
      (S ''value'', currencySchema P),
      (S ''currency'',
         default (z_string P [Length 3 (S ''Currency must be a 3-letter code'')])
           (Str (S ''USD''))),
      (S ''stage'', default (z_enum dealStages) (Str (S ''lead''))),
      (S ''probability'', percentageSchema P),
      (S ''contactId'',
         transform (or (optional (uuidSchema P)) z_literal_empty) or_undefined),
      (S ''organizationId'',
         transform (or (optional (uuidSchema P)) z_literal_empty) or_undefined),
      (S ''expectedCloseDate'',
         transform (or (optional (z_string P [])) z_literal_empty) or_undefined),
      (S ''notes'',
         transform
           (or (optional (z_string P [Max 2000 (S ''Notes must be less than 2000 characters'')]))
               z_literal_empty)
           or_undefined)]"

definition dealSchema :: "platform \<Rightarrow> jsobject \<Rightarrow> jsobject parsed" where
  "dealSchema P = z_object (dealSchema_shape P)"

definition dealUpdateSchema :: "platform \<Rightarrow> jsobject \<Rightarrow> jsobject parsed" where
  "dealUpdateSchema P = z_object (partial (dealSchema_shape P))"

definition dealSearchSchema_shape :: "platform \<Rightarrow> shape" where
  "dealSearchSchema_shape P =
     [(S ''search'',
         optional (z_string P [Max 100 (S ''String must contain at most 100 character(s)'')])),
      (S ''stage'', optional (z_enum dealStages)),
      (S ''contactId'', optional (uuidSchema P)),
      (S ''organizationId'', optional (uuidSchema P)),
      (S ''minValue'',
         optional
           (z_coerce_number P
              [IsInt (S ''Expected integer, received float''),
               NMin 0 True (S ''Number must be greater than or equal to 0'')])),
      (S ''maxValue'',
         optional
           (z_coerce_number P
              [IsInt (S ''Expected integer, received float''),
               NMin 0 True (S ''Number must be greater than or equal to 0'')])),
      (S ''page'',
         default
           (z_coerce_number P
              [IsInt (S ''Expected integer, received float''),
               NMin 0 False (S ''Number must be greater than 0'')])
           (Num (Finite 1))),
      (S ''limit'',
         default
           (z_coerce_number P
              [IsInt (S ''Expected integer, received float''),
               NMin 1 True (S ''Number must be greater than or equal to 1''),
               NMax 100 True (S ''Number must be less than or equal to 100'')])
           (Num (Finite 20))),
      (S ''sortBy'',
         default
           (optional
              (z_enum [S ''title'', S ''value'', S ''stage'', S ''expectedCloseDate'',
                       S ''createdAt'']))
           (Str (S ''createdAt''))),
      (S ''sortOrder'', default (optional (z_enum [S ''asc'', S ''desc''])) (Str (S ''desc'')))]"

definition dealSearchSchema :: "platform \<Rightarrow> jsobject \<Rightarrow> jsobject parsed" where
  "dealSearchSchema P = z_object (dealSearchSchema_shape P)"

definition moveDealSchema_shape :: "platform \<Rightarrow> shape" where
  "moveDealSchema_shape P = [(S ''dealId'', uuidSchema P), (S ''stage'', z_enum dealStages)]"

definition moveDealSchema :: "platform \<Rightarrow> jsobject \<Rightarrow> jsobject parsed" where
  "moveDealSchema P = z_object (moveDealSchema_shape P)"

subsection \<open>Organization schemas\<close>

text \<open>The arrow function \<open>(val) => (val === '' ? undefined : val)\<close> of \<open>employeeCount\<close>.\<close>

definition empty_to_undefined :: "jsval \<Rightarrow> jsval" where
  "empty_to_undefined val = (if strict_equals val (Str []) then Undefined else val)"

definition organizationSchema_shape :: "platform \<Rightarrow> shape" where
  "organizationSchema_shape P =
     [(S ''name'',
         z_string P [Min 1 (S ''Organization name is required''),
                     Max 200 (S ''Name must be less than 200 characters''), Trim]),
      (S ''website'', urlSchema P),
      (S ''industry'',
         transform
           (or (optional (z_string P [Max 100 (S ''Industry must be less than 100 characters'')]))
               z_literal_empty)
           or_undefined),
      (S ''description'',
         transform
           (or (optional (z_string P [Max 2000 (S ''Description must be less than 2000 characters'')]))
               z_literal_empty)
           or_undefined),
      (S ''address'',
         transform
           (or (optional (z_string P [Max 200 (S ''Address must be less than 200 characters'')]))
               z_literal_empty)
           or_undefined),
      (S ''city'',
         transform
           (or (optional (z_string P [Max 100 (S ''City must be less than 100 characters'')]))
               z_literal_empty)
           or_undefined),
      (S ''state'',
         transform
           (or (optional (z_string P [Max 100 (S ''State must be less than 100 characters'')]))
               z_literal_empty)
           or_undefined),
      (S ''country'',
         transform
           (or (optional (z_string P [Max 100 (S ''Country must be less than 100 characters'')]))
               z_literal_empty)
           or_undefined),
      (S ''postalCode'',
         transform
           (or (optional (z_string P [Max 20 (S ''Postal code must be less than 20 characters'')]))
               z_literal_empty)
           or_undefined),
      (S ''employeeCount'',
         transform
           (or (optional
                  (z_coerce_number P
                     [IsInt (S ''Expected integer, received float''),
                      NMin 0 True (S ''Employee count must be positive'')]))
               z_literal_empty)
           empty_to_undefined),
      (S ''annualRevenue'', currencySchema P),
      (S ''linkedinUrl'', urlSchema P),
      (S ''logoUrl'', urlSchema P)]"

definition organizationSchema :: "platform \<Rightarrow> jsobject \<Rightarrow> jsobject parsed" where
  "organizationSchema P = z_object (organizationSchema_shape P)"

definition organizationUpdateSchema :: "platform \<Rightarrow> jsobject \<Rightarrow> jsobject parsed" where
  "organizationUpdateSchema P = z_object (partial (organizationSchema_shape P))"

definition organizationSearchSchema_shape :: "platform \<Rightarrow> shape" where
  "organizationSearchSchema_shape P =
     [(S ''search'',
         optional (z_string P [Max 100 (S ''String must contain at most 100 character(s)'')])),
      (S ''industry'',
         optional (z_string P [Max 100 (S ''String must contain at most 100 character(s)'')])),
      (S ''page'',
         default
           (z_coerce_number P
              [IsInt (S ''Expected integer, received float''),
               NMin 0 False (S ''Number must be greater than 0'')])
           (Num (Finite 1))),
      (S ''limit'',
         default
           (z_coerce_number P
              [IsInt (S ''Expected integer, received float''),
               NMin 1 True (S ''Number must be greater than or equal to 1''),
               NMax 100 True (S ''Number must be less than or equal to 100'')])
           (Num (Finite 20))),
      (S ''sortBy'',
         default (optional (z_enum [S ''name'', S ''industry'', S ''createdAt'']))
           (Str (S ''createdAt''))),
      (S ''sortOrder'', default (optional (z_enum [S ''asc'', S ''desc''])) (Str (S ''desc'')))]"

definition organizationSearchSchema :: "platform \<Rightarrow> jsobject \<Rightarrow> jsobject parsed" where
  "organizationSearchSchema P = z_object (organizationSearchSchema_shape P)"

section \<open>Errors and action results\<close>

text \<open>
  What a handler's \<open>try\<close> block can throw. \<open>AppError\<close> stands for the class and for its
  subclasses other than \<open>ValidationError\<close>, which differ from it in the constructor's
  defaults only; \<open>JsError\<close> is any other \<open>Error\<close>, \<open>NonError\<close> any other thrown value.
\<close>

datatype thrown =
    ValidationError jsstring "(jsstring \<times> jsstring list) list"
  | AppError jsstring jsstring nat
  | JsError jsstring
  | NonError

definition AuthenticationError :: thrown where
  "AuthenticationError =
     AppError (S ''You must be logged in to perform this action'') (S ''UNAUTHENTICATED'') 401"

definition NotFoundError :: "jsstring \<Rightarrow> thrown" where
  "NotFoundError resource = AppError (resource @ S '' not found'') (S ''NOT_FOUND'') 404"

section \<open>Values of type uuid\<close>

text \<open>
  The columns \<open>id\<close>, \<open>user_id\<close> and \<open>organization_id\<close> are of type \<open>uuid\<close>, and so is
  the id of an identity. The database returns a uuid as 36 code units: lower-case
  hexadecimal digits in groups of 8, 4, 4, 4 and 12, with a hyphen between the groups. A
  value of type \<open>uuid\<close> is such a text.
\<close>

definition is_hex :: "nat \<Rightarrow> bool" where
  "is_hex c = (48 \<le> c \<and> c \<le> 57 \<or> 97 \<le> c \<and> c \<le> 102)"

definition canonical_uuid :: "jsstring \<Rightarrow> bool" where
  "canonical_uuid s =
     (length s = 36
      \<and> list_all is_hex (take 8 s) \<and> s ! 8 = 45
      \<and> list_all is_hex (take 4 (drop 9 s)) \<and> s ! 13 = 45
      \<and> list_all is_hex (take 4 (drop 14 s)) \<and> s ! 18 = 45
      \<and> list_all is_hex (take 4 (drop 19 s)) \<and> s ! 23 = 45
      \<and> list_all is_hex (drop 24 s))"

typedef uuid = "{s. canonical_uuid s}"
  by (rule exI [of _ "S ''00000000-0000-0000-0000-000000000000''"])
     (simp add: canonical_uuid_def S_def is_hex_def)

section \<open>Rows and results\<close>

text \<open>
  A row of the \<open>contacts\<close> table; a nullable column is an option. \<open>contact_id\<close>,
  \<open>userId\<close> and \<open>organizationId\<close> are the row's \<open>id\<close>, \<open>userId\<close> and
  \<open>organizationId\<close> as the handlers get them back: strings.
\<close>

record contact =
  id_uuid :: uuid
  userId_uuid :: uuid
  organizationId_uuid :: "uuid option"
  firstName :: jsstring
  lastName :: jsstring
  email :: jsstring
  phone :: "jsstring option"
  title :: "jsstring option"
  contact_type :: "jsstring option"
  contact_notes :: "jsstring option"
  linkedinUrl :: "jsstring option"
  twitterUrl :: "jsstring option"
  createdAt :: nat
  updatedAt :: nat

definition contact_id :: "contact \<Rightarrow> jsstring" where
  "contact_id r = Rep_uuid (id_uuid r)"

definition userId :: "contact \<Rightarrow> jsstring" where
  "userId r = Rep_uuid (userId_uuid r)"

definition organizationId :: "contact \<Rightarrow> jsstring option" where
  "organizationId r = map_option Rep_uuid (organizationId_uuid r)"

datatype ActionResult =
    Success "contact option" "jsstring option"
  | Failure "jsstring option" "(jsstring \<times> jsstring list) list option"

section \<open>The world a handler runs in\<close>

text \<open>
  An identity as the session validator (\<open>supabase.auth.getUser()\<close>) returns it: its id,
  a uuid, which \<open>user_id\<close> gives as the string \<open>user.id\<close>, and its email.
\<close>

datatype user = User (user_uuid: uuid) (user_email: jsstring)

definition user_id :: "user \<Rightarrow> jsstring" where
  "user_id u = Rep_uuid (user_uuid u)"

datatype statement =
    InsertContacts jsobject
  | UpdateContacts jsobject jsstring jsstring
  | DeleteContacts jsstring jsstring

text \<open>The reasons for which the database rejects a statement of the handlers.\<close>

datatype db_fault =
    InvalidUuid jsstring
  | InvalidText jsstring
  | InvalidEnum jsstring
  | NotNullViolation jsstring
  | UniqueViolation jsstring
  | ForeignKeyViolation jsstring

text \<open>
  The world: the identity the session validator resolves for the request; the \<open>contacts\<close>
  table, and the ids of the rows of the \<open>users\<close> and \<open>organizations\<close> tables, which
  \<open>contacts\<close> references; the statements sent to the database so far; the paths handed to
  \<open>revalidatePath\<close>; what was written with \<open>console.error\<close>; the clock; the ids the
  database will generate; how the database reads a string that is not a uuid in the form
  above (\<open>None\<close> when it is not of uuid syntax, the value it spells otherwise); and the
  message of the error the database driver throws for a fault.
\<close>

record world =
  session_user :: "user option"
  contacts :: "contact list"
  user_rows :: "uuid list"
  organization_rows :: "uuid list"
  db_log :: "statement list"
  revalidated :: "jsstring list"
  console :: "thrown list"
  clock :: nat
  uuid_seq :: "nat \<Rightarrow> uuid"
  uuid_spelling :: "jsstring \<Rightarrow> uuid option"
  fault_message :: "db_fault \<Rightarrow> jsstring"

definition revalidatePath :: "world \<Rightarrow> jsstring \<Rightarrow> world" where
  "revalidatePath w path = w\<lparr>revalidated := revalidated w @ [path]\<rparr>"

definition handleActionError :: "world \<Rightarrow> thrown \<Rightarrow> ActionResult \<times> world" where
  "handleActionError w error =
     (case error of
        ValidationError m errs \<Rightarrow> (Failure None (Some errs), w)
      | AppError m c st \<Rightarrow> (Failure (Some m) None, w)
      | _ \<Rightarrow>
          (if (case error of JsError m \<Rightarrow> js_includes m (S ''unique constraint'') | _ \<Rightarrow> False)
           then (Failure (Some (S ''A record with this value already exists'')) None, w)
           else if (case error of JsError m \<Rightarrow> js_includes m (S ''foreign key constraint'')
                                | _ \<Rightarrow> False)
           then (Failure (Some (S ''Referenced record does not exist'')) None, w)
           else (Failure (Some (S ''An unexpected error occurred. Please try again.'')) None,
                 w\<lparr>console := console w @ [error]\<rparr>)))"

section \<open>The data layer\<close>

text \<open>
  The database reads a string handed to it for a uuid column: a text in the form above is
  the uuid it is, any other string is read as \<open>uuid_spelling\<close> says.
\<close>

definition read_uuid :: "world \<Rightarrow> jsstring \<Rightarrow> uuid option" where
  "read_uuid w s = (if canonical_uuid s then Some (Abs_uuid s) else uuid_spelling w s)"

text \<open>
  The parameters of a statement are read before it runs, in the order of the table's
  columns, and the first that cannot be read is the statement's fault: a string for a
  uuid column that is not of uuid syntax, a text with a zero code unit in it, a string for
  \<open>type\<close> that is not one of the enum's values. A value that is \<open>undefined\<close> is no
  parameter: the column is left to its default on insert and is not set on update. The
  validated data holds strings and \<open>undefined\<close> only.
\<close>

definition text_value :: "jsval \<Rightarrow> jsstring option" where
  "text_value v = (case v of Str s \<Rightarrow> Some s | _ \<Rightarrow> None)"

definition uuid_fault :: "world \<Rightarrow> jsval \<Rightarrow> db_fault option" where
  "uuid_fault w v =
     (case v of
        Str s \<Rightarrow> (case read_uuid w s of None \<Rightarrow> Some (InvalidUuid s) | Some x \<Rightarrow> None)
      | _ \<Rightarrow> None)"

definition text_fault :: "jsval \<Rightarrow> db_fault option" where
  "text_fault v =
     (case v of Str s \<Rightarrow> if 0 \<in> set s then Some (InvalidText s) else None | _ \<Rightarrow> None)"

definition enum_fault :: "jsval \<Rightarrow> db_fault option" where
  "enum_fault v =
     (case v of
        Str s \<Rightarrow> if s \<in> set contactTypes then None else Some (InvalidEnum s)
      | _ \<Rightarrow> None)"

fun first_fault :: "db_fault option list \<Rightarrow> db_fault option" where
  "first_fault [] = None"
| "first_fault (None # fs) = first_fault fs"
| "first_fault (Some f # fs) = Some f"

definition param_fault :: "world \<Rightarrow> jsobject \<Rightarrow> db_fault option" where
  "param_fault w vals =
     first_fault
       [uuid_fault w (get_prop vals (S ''userId'')),
        uuid_fault w (get_prop vals (S ''organizationId'')),
        text_fault (get_prop vals (S ''firstName'')),
        text_fault (get_prop vals (S ''lastName'')),
        text_fault (get_prop vals (S ''email'')),
        text_fault (get_prop vals (S ''phone'')),
        text_fault (get_prop vals (S ''title'')),
        enum_fault (get_prop vals (S ''type'')),
        text_fault (get_prop vals (S ''notes'')),
        text_fault (get_prop vals (S ''linkedinUrl'')),
        text_fault (get_prop vals (S ''twitterUrl''))]"

definition uuid_value :: "world \<Rightarrow> jsval \<Rightarrow> uuid option" where
  "uuid_value w v = (case v of Str s \<Rightarrow> read_uuid w s | _ \<Rightarrow> None)"

text \<open>
  Every statement is logged, and a statement that fails changes no row; the error thrown
  for a fault is one of the driver's, with the driver's message.
\<close>

definition db_error :: "world \<Rightarrow> db_fault \<Rightarrow> thrown" where
  "db_error w f = JsError (fault_message w f)"

text \<open>
  Insert: after the parameters are read, a \<open>notNull\<close> column without a value, a generated
  id that a row already has, an owner that is not a row of \<open>users\<close> and an organization
  that is not a row of \<open>organizations\<close> are faults, found in this order; otherwise the
  row is added and returned.
\<close>

definition insert_fault :: "world \<Rightarrow> jsobject \<Rightarrow> db_fault option" where
  "insert_fault w vals =
     first_fault
       [param_fault w vals,
        if text_value (get_prop vals (S ''userId'')) = None
        then Some (NotNullViolation (S ''user_id'')) else None,
        if text_value (get_prop vals (S ''firstName'')) = None
        then Some (NotNullViolation (S ''first_name'')) else None,
        if text_value (get_prop vals (S ''lastName'')) = None
        then Some (NotNullViolation (S ''last_name'')) else None,
        if text_value (get_prop vals (S ''email'')) = None
        then Some (NotNullViolation (S ''email'')) else None,
        if uuid_seq w (length (db_log w)) \<in> set (map id_uuid (contacts w))
        then Some (UniqueViolation (S ''contacts_pkey'')) else None,
        case uuid_value w (get_prop vals (S ''userId'')) of
          None \<Rightarrow> None
        | Some x \<Rightarrow> if x \<in> set (user_rows w) then None
                     else Some (ForeignKeyViolation (S ''user_id'')),
        case uuid_value w (get_prop vals (S ''organizationId'')) of
          None \<Rightarrow> None
        | Some x \<Rightarrow> if x \<in> set (organization_rows w) then None
                     else Some (ForeignKeyViolation (S ''organization_id''))]"

definition db_insert_contacts :: "world \<Rightarrow> jsobject \<Rightarrow> (thrown \<times> world) + (contact \<times> world)" where
  "db_insert_contacts w vals =
     (case insert_fault w vals of
        Some f \<Rightarrow> Inl (db_error w f, w\<lparr>db_log := db_log w @ [InsertContacts vals]\<rparr>)
      | None \<Rightarrow>
          (case (uuid_value w (get_prop vals (S ''userId'')),
                 text_value (get_prop vals (S ''firstName'')),
                 text_value (get_prop vals (S ''lastName'')),
                 text_value (get_prop vals (S ''email''))) of
             (Some u, Some f, Some l, Some e) \<Rightarrow>
               (let row = \<lparr>id_uuid = uuid_seq w (length (db_log w)),
                           userId_uuid = u,
                           organizationId_uuid = uuid_value w (get_prop vals (S ''organizationId'')),
                           firstName = f, lastName = l, email = e,
                           phone = text_value (get_prop vals (S ''phone'')),
                           title = text_value (get_prop vals (S ''title'')),
                           contact_type =
                             (case text_value (get_prop vals (S ''type'')) of
                                None \<Rightarrow> Some (S ''lead'') | Some t \<Rightarrow> Some t),
                           contact_notes = text_value (get_prop vals (S ''notes'')),
                           linkedinUrl = text_value (get_prop vals (S ''linkedinUrl'')),
                           twitterUrl = text_value (get_prop vals (S ''twitterUrl'')),
                           createdAt = clock w, updatedAt = clock w\<rparr>
                in Inr (row, w\<lparr>contacts := contacts w @ [row],
                              db_log := db_log w @ [InsertContacts vals]\<rparr>))
           | _ \<Rightarrow>
               Inl (db_error w (NotNullViolation (S ''user_id'')),
                    w\<lparr>db_log := db_log w @ [InsertContacts vals]\<rparr>)))"

definition set_text :: "jsval \<Rightarrow> jsstring \<Rightarrow> jsstring" where
  "set_text v old = (case v of Str s \<Rightarrow> s | _ \<Rightarrow> old)"

definition set_nullable :: "jsval \<Rightarrow> jsstring option \<Rightarrow> jsstring option" where
  "set_nullable v old = (case v of Str s \<Rightarrow> Some s | _ \<Rightarrow> old)"

definition set_uuid :: "world \<Rightarrow> jsval \<Rightarrow> uuid option \<Rightarrow> uuid option" where
  "set_uuid w v old = (case v of Str s \<Rightarrow> read_uuid w s | _ \<Rightarrow> old)"

definition apply_set :: "world \<Rightarrow> jsobject \<Rightarrow> contact \<Rightarrow> contact" where
  "apply_set w vals r =
     r\<lparr>organizationId_uuid :=
         set_uuid w (get_prop vals (S ''organizationId'')) (organizationId_uuid r),
       firstName := set_text (get_prop vals (S ''firstName'')) (firstName r),
       lastName := set_text (get_prop vals (S ''lastName'')) (lastName r),
       email := set_text (get_prop vals (S ''email'')) (email r),
       phone := set_nullable (get_prop vals (S ''phone'')) (phone r),
       title := set_nullable (get_prop vals (S ''title'')) (title r),
       contact_type := set_nullable (get_prop vals (S ''type'')) (contact_type r),
       contact_notes := set_nullable (get_prop vals (S ''notes'')) (contact_notes r),
       linkedinUrl := set_nullable (get_prop vals (S ''linkedinUrl'')) (linkedinUrl r),
       twitterUrl := set_nullable (get_prop vals (S ''twitterUrl'')) (twitterUrl r),
       updatedAt := clock w\<rparr>"

text \<open>The \<open>where\<close> clause of update and delete: \<open>id = id AND user_id = user.id\<close>.\<close>

definition targets :: "uuid \<Rightarrow> uuid \<Rightarrow> contact \<Rightarrow> bool" where
  "targets i uid r = (id_uuid r = i \<and> userId_uuid r = uid)"

text \<open>
  Update: the values to set are read, then the id and the owner of the \<open>where\<close> clause;
  when rows match, an organization that is not a row of \<open>organizations\<close> is a fault;
  otherwise the matching rows are changed and returned.
\<close>

definition db_update_contacts ::
  "world \<Rightarrow> jsobject \<Rightarrow> jsstring \<Rightarrow> jsstring \<Rightarrow> (thrown \<times> world) + (contact list \<times> world)"
where
  "db_update_contacts w vals i uid =
     (case first_fault [param_fault w vals, uuid_fault w (Str i), uuid_fault w (Str uid)] of
        Some f \<Rightarrow> Inl (db_error w f, w\<lparr>db_log := db_log w @ [UpdateContacts vals i uid]\<rparr>)
      | None \<Rightarrow>
          (case (read_uuid w i, read_uuid w uid) of
             (Some x, Some y) \<Rightarrow>
               (if filter (targets x y) (contacts w) \<noteq> []
                   \<and> (case uuid_value w (get_prop vals (S ''organizationId'')) of
                         None \<Rightarrow> False | Some g \<Rightarrow> g \<notin> set (organization_rows w))
                then Inl (db_error w (ForeignKeyViolation (S ''organization_id'')),
                          w\<lparr>db_log := db_log w @ [UpdateContacts vals i uid]\<rparr>)
                else Inr (map (apply_set w vals) (filter (targets x y) (contacts w)),
                          w\<lparr>contacts :=
                              map (\<lambda>r. if targets x y r then apply_set w vals r else r)
                                (contacts w),
                            db_log := db_log w @ [UpdateContacts vals i uid]\<rparr>))
           | _ \<Rightarrow> Inl (db_error w (InvalidUuid i),
                       w\<lparr>db_log := db_log w @ [UpdateContacts vals i uid]\<rparr>)))"

text \<open>Delete: the id and the owner are read; the matching rows are removed and returned.\<close>

definition db_delete_contacts ::
  "world \<Rightarrow> jsstring \<Rightarrow> jsstring \<Rightarrow> (thrown \<times> world) + (contact list \<times> world)" where
  "db_delete_contacts w i uid =
     (case first_fault [uuid_fault w (Str i), uuid_fault w (Str uid)] of
        Some f \<Rightarrow> Inl (db_error w f, w\<lparr>db_log := db_log w @ [DeleteContacts i uid]\<rparr>)
      | None \<Rightarrow>
          (case (read_uuid w i, read_uuid w uid) of
             (Some x, Some y) \<Rightarrow>
               Inr (filter (targets x y) (contacts w),
                    w\<lparr>contacts := filter (\<lambda>r. \<not> targets x y r) (contacts w),
                      db_log := db_log w @ [DeleteContacts i uid]\<rparr>)
           | _ \<Rightarrow> Inl (db_error w (InvalidUuid i),
                       w\<lparr>db_log := db_log w @ [DeleteContacts i uid]\<rparr>)))"

section \<open>The mutation handlers\<close>

text \<open>
  Each handler is a \<open>try\<close> block, which returns a result or throws, and the \<open>catch\<close>
  around it, which turns whatever was thrown into a result with \<open>handleActionError\<close>.
\<close>

type_synonym formdata = "(jsstring \<times> jsval) list"

definition createContact_try ::
  "platform \<Rightarrow> world \<Rightarrow> formdata \<Rightarrow> (thrown \<times> world) + (ActionResult \<times> world)" where
  "createContact_try P w formData =
     (case session_user w of
        None \<Rightarrow> Inl (AuthenticationError, w)
      | Some u \<Rightarrow>
          (case safeParse (contactSchema P) (Object_fromEntries formData) of
             Inl iss \<Rightarrow> Inr (Failure None (Some (fieldErrors iss)), w)
           | Inr data \<Rightarrow>
               (case db_insert_contacts w (set_prop data (S ''userId'') (Str (user_id u))) of
                  Inl e \<Rightarrow> Inl e
                | Inr (row, w1) \<Rightarrow>
                    Inr (Success (Some row) (Some (S ''Contact created successfully'')),
                         revalidatePath w1 (S ''/contacts'')))))"

definition createContact :: "platform \<Rightarrow> world \<Rightarrow> formdata \<Rightarrow> ActionResult \<times> world" where
  "createContact P w formData =
     (case createContact_try P w formData of
        Inl (error, w1) \<Rightarrow> handleActionError w1 error
      | Inr r \<Rightarrow> r)"

definition updateContact_try ::
  "platform \<Rightarrow> world \<Rightarrow> jsstring \<Rightarrow> formdata \<Rightarrow> (thrown \<times> world) + (ActionResult \<times> world)"
where
  "updateContact_try P w i formData =
     (case session_user w of
        None \<Rightarrow> Inl (AuthenticationError, w)
      | Some u \<Rightarrow>
          (case safeParse (contactUpdateSchema P) (Object_fromEntries formData) of
             Inl iss \<Rightarrow> Inr (Failure None (Some (fieldErrors iss)), w)
           | Inr data \<Rightarrow>
               (case db_update_contacts w data i (user_id u) of
                  Inl e \<Rightarrow> Inl e
                | Inr ([], w1) \<Rightarrow> Inl (NotFoundError (S ''Contact''), w1)
                | Inr (row # rest, w1) \<Rightarrow>
                    Inr (Success (Some row) (Some (S ''Contact updated successfully'')),
                         revalidatePath (revalidatePath w1 (S ''/contacts''))
                           (S ''/contacts/'' @ i)))))"

definition updateContact ::
  "platform \<Rightarrow> world \<Rightarrow> jsstring \<Rightarrow> formdata \<Rightarrow> ActionResult \<times> world" where
  "updateContact P w i formData =
     (case updateContact_try P w i formData of
        Inl (error, w1) \<Rightarrow> handleActionError w1 error
      | Inr r \<Rightarrow> r)"

definition deleteContact_try ::
  "world \<Rightarrow> jsstring \<Rightarrow> (thrown \<times> world) + (ActionResult \<times> world)" where
  "deleteContact_try w i =
     (case session_user w of
        None \<Rightarrow> Inl (AuthenticationError, w)
      | Some u \<Rightarrow>
          (case db_delete_contacts w i (user_id u) of
             Inl e \<Rightarrow> Inl e
           | Inr ([], w1) \<Rightarrow> Inl (NotFoundError (S ''Contact''), w1)
           | Inr (row # rest, w1) \<Rightarrow>
               Inr (Success None (Some (S ''Contact deleted successfully'')),
                    revalidatePath w1 (S ''/contacts''))))"

definition deleteContact :: "world \<Rightarrow> jsstring \<Rightarrow> ActionResult \<times> world" where
  "deleteContact w i =
     (case deleteContact_try w i of
        Inl (error, w1) \<Rightarrow> handleActionError w1 error
      | Inr r \<Rightarrow> r)"

section \<open>The route guard\<close>

text \<open>
  A URL is its path and its query parameters in order; the origin never changes.
\<close>

record url =
  pathname :: jsstring
  searchParams :: "(jsstring \<times> jsstring) list"

definition searchParams_get :: "(jsstring \<times> jsstring) list \<Rightarrow> jsstring \<Rightarrow> jsstring option" where
  "searchParams_get ps name = map_of ps name"

definition searchParams_delete ::
  "(jsstring \<times> jsstring) list \<Rightarrow> jsstring \<Rightarrow> (jsstring \<times> jsstring) list" where
  "searchParams_delete ps name = filter (\<lambda>(n, v). n \<noteq> name) ps"

text \<open>
  \<open>URLSearchParams.set\<close>: the first parameter of that name takes the value and the
  others of that name are removed; without one the parameter is appended.
\<close>

fun searchParams_set ::
  "(jsstring \<times> jsstring) list \<Rightarrow> jsstring \<Rightarrow> jsstring \<Rightarrow> (jsstring \<times> jsstring) list" where
  "searchParams_set [] name value = [(name, value)]"
| "searchParams_set ((n, v) # ps) name value =
     (if n = name then (name, value) # searchParams_delete ps name
      else (n, v) # searchParams_set ps name value)"

text \<open>
  The request as the guard sees it: the URL, the identity \<open>supabase.auth.getUser()\<close>
  resolves from the request's cookies, and what the URL's \<open>pathname\<close> setter makes of a
  string that is not a plain path. The guard answers with a redirect or lets the request
  through (\<open>supabaseResponse\<close>, which carries the refreshed session cookies).
\<close>

record request =
  nextUrl :: url
  verified_user :: "user option"
  pathname_setter :: "jsstring \<Rightarrow> jsstring"

text \<open>
  The assignment \<open>url.pathname = v\<close> parses \<open>v\<close> as a path: it puts a slash in front
  when there is none, resolves dot segments and percent-encodes what a path cannot hold.
  A plain path, a slash followed by letters, digits, slashes, hyphens, underscores and
  tildes only, is left as it is; for any other string the path is what the platform's
  setter makes of it.
\<close>

definition plain_char :: "nat \<Rightarrow> bool" where
  "plain_char c =
     (48 \<le> c \<and> c \<le> 57 \<or> 65 \<le> c \<and> c \<le> 90 \<or> 97 \<le> c \<and> c \<le> 122
      \<or> c = 47 \<or> c = 45 \<or> c = 95 \<or> c = 126)"

definition plain_path :: "jsstring \<Rightarrow> bool" where
  "plain_path v = (take 1 v = [47] \<and> list_all plain_char v)"

definition assign_pathname :: "request \<Rightarrow> jsstring \<Rightarrow> jsstring" where
  "assign_pathname req v = (if plain_path v then v else pathname_setter req v)"

datatype response = Next | Redirect url

definition protectedRoutes :: "jsstring list" where
  "protectedRoutes =
     [S ''/dashboard'', S ''/contacts'', S ''/organizations'', S ''/deals'', S ''/settings'']"

definition authRoutes :: "jsstring list" where
  "authRoutes = [S ''/login'', S ''/register'', S ''/reset-password'']"

definition isProtectedRoute :: "jsstring \<Rightarrow> bool" where
  "isProtectedRoute path = list_ex (\<lambda>route. startsWith path route) protectedRoutes"

definition isAuthRoute :: "jsstring \<Rightarrow> bool" where
  "isAuthRoute path = list_ex (\<lambda>route. startsWith path route) authRoutes"

definition updateSession :: "request \<Rightarrow> response" where
  "updateSession req =
     (if isProtectedRoute (pathname (nextUrl req)) \<and> verified_user req = None
      then Redirect
             \<lparr>pathname = S ''/login'',
              searchParams =
                searchParams_set (searchParams (nextUrl req)) (S ''redirectTo'')
                  (pathname (nextUrl req))\<rparr>
      else if isAuthRoute (pathname (nextUrl req)) \<and> verified_user req \<noteq> None
      then Redirect
             \<lparr>pathname =
                assign_pathname req
                  (case searchParams_get (searchParams (nextUrl req)) (S ''redirectTo'') of
                     None \<Rightarrow> S ''/dashboard''
                   | Some r \<Rightarrow> if r = [] then S ''/dashboard'' else r),
              searchParams = searchParams_delete (searchParams (nextUrl req)) (S ''redirectTo'')\<rparr>
      else Next)"

section \<open>The webhook endpoint\<close>

text \<open>
  The request's body and its \<open>stripe-signature\<close> header (\<open>None\<close> when the header is
  absent), and the JSON response with its status. The calls that would verify the
  signature and dispatch on the event are commented out in the source; what is left reads
  the body and the header and answers.
\<close>

record webhook_request =
  body :: jsstring
  stripe_signature :: "jsstring option"

record json_response =
  status :: nat
  json :: jsobject

definition POST :: "world \<Rightarrow> webhook_request \<Rightarrow> json_response \<times> world" where
  "POST w req =
     (if (case stripe_signature req of None \<Rightarrow> True | Some signature \<Rightarrow> signature = [])
      then (\<lparr>status = 400, json = [(S ''error'', Str (S ''Missing stripe-signature header''))]\<rparr>,
            w)
      else (\<lparr>status = 200,
             json = [(S ''message'',
                        Str (S ''Stripe webhook endpoint ready. Configure Stripe to enable.'')),
                     (S ''received'', Bool True)]\<rparr>,
            w))"

section \<open>Worked examples\<close>

text \<open>
  A platform for the worked examples: an address is anything with an at sign in it, an id
  is a uuid in the form above in either case of the letters, a URL starts with \<open>http\<close>,
  lower-casing acts on the letters A to Z, the one numeric string is \<open>150\<close>, and
  nothing is a date.
\<close>

definition ascii_lower :: "jsstring \<Rightarrow> jsstring" where
  "ascii_lower = map (\<lambda>c. if 65 \<le> c \<and> c \<le> 90 then c + 32 else c)"

definition example_platform :: platform where
  "example_platform =
     \<lparr>emailRegex = (\<lambda>s. 64 \<in> set s),
      uuidRegex = (\<lambda>s. canonical_uuid (ascii_lower s)),
      isURL = (\<lambda>s. startsWith s (S ''http'')),
      toLowerCase = ascii_lower,
      StringToNumber = (\<lambda>s. if s = S ''150'' then Finite 150 else NaN),
      DateValue = (\<lambda>v. NaN)\<rparr>"

text \<open>The ids of two identities, of a contact of the first, and two more.\<close>

definition alice_id :: jsstring where
  "alice_id = S ''a1111111-1111-4111-8111-111111111111''"

definition bob_id :: jsstring where
  "bob_id = S ''b2222222-2222-4222-8222-222222222222''"

definition c1_id :: jsstring where
  "c1_id = S ''c1111111-1111-4111-8111-111111111111''"

definition c2_id :: jsstring where
  "c2_id = S ''c2222222-2222-4222-8222-222222222222''"

definition c9_id :: jsstring where
  "c9_id = S ''c9999999-9999-4999-8999-999999999999''"

definition alice :: user where
  "alice = User (Abs_uuid alice_id) (S ''alice@example.com'')"

definition bob :: user where
  "bob = User (Abs_uuid bob_id) (S ''bob@example.com'')"

definition alices_contact :: contact where
  "alices_contact =
     \<lparr>id_uuid = Abs_uuid c1_id, userId_uuid = Abs_uuid alice_id, organizationId_uuid = None,
      firstName = S ''Ada'', lastName = S ''Byron'', email = S ''ada@example.com'',
      phone = None, title = None, contact_type = Some (S ''lead''), contact_notes = None,
      linkedinUrl = None, twitterUrl = None, createdAt = 1, updatedAt = 1\<rparr>"

text \<open>
  The messages of the database for the faults, and a world with one contact, of the first
  identity, whose database also reads a uuid written with capital letters.
\<close>

fun postgres_message :: "db_fault \<Rightarrow> jsstring" where
  "postgres_message (InvalidUuid s) =
     S ''invalid input syntax for type uuid: \"'' @ s @ S ''\"''"
| "postgres_message (InvalidText s) = S ''invalid byte sequence for encoding \"UTF8\": 0x00''"
| "postgres_message (InvalidEnum s) =
     S ''invalid input value for enum contact_type: \"'' @ s @ S ''\"''"
| "postgres_message (NotNullViolation c) =
     S ''null value in column \"'' @ c
       @ S ''\" of relation \"contacts\" violates not-null constraint''"
| "postgres_message (UniqueViolation c) =
     S ''duplicate key value violates unique constraint \"'' @ c @ S ''\"''"
| "postgres_message (ForeignKeyViolation c) =
     S ''insert or update on table \"contacts\" violates foreign key constraint \"contacts_''
       @ c @ S ''_fk\"''"

definition example_world :: "user option \<Rightarrow> world" where
  "example_world u =
     \<lparr>session_user = u, contacts = [alices_contact],
      user_rows = [Abs_uuid alice_id, Abs_uuid bob_id], organization_rows = [],
      db_log = [], revalidated = [], console = [], clock = 2,
      uuid_seq = (\<lambda>n. Abs_uuid c2_id),
      uuid_spelling =
        (\<lambda>s. if canonical_uuid (ascii_lower s) then Some (Abs_uuid (ascii_lower s)) else None),
      fault_message = postgres_message\<rparr>"

definition john_doe_form :: formdata where
  "john_doe_form =
     [(S ''firstName'', Str (S ''John'')), (S ''lastName'', Str (S ''Doe'')),
      (S ''email'', Str (S ''john@example.com''))]"

definition nameless_form :: formdata where
  "nameless_form =
     [(S ''firstName'', Str []), (S ''lastName'', Str (S ''Doe'')),
      (S ''email'', Str (S ''john@example.com''))]"

text \<open>A form whose optional text fields were all left blank.\<close>

definition blank_fields_form :: formdata where
  "blank_fields_form =
     [(S ''firstName'', Str (S ''John'')), (S ''lastName'', Str (S ''Doe'')),
      (S ''email'', Str (S ''john@example.com'')), (S ''phone'', Str []),
      (S ''title'', Str []), (S ''organizationId'', Str []), (S ''notes'', Str []),
      (S ''linkedinUrl'', Str []), (S ''twitterUrl'', Str [])]"

text \<open>
  Requests to the route guard, whose setter puts the missing slash in front, and to the
  webhook endpoint.
\<close>

definition settings_request :: request where
  "settings_request =
     \<lparr>nextUrl = \<lparr>pathname = S ''/settings/profile'', searchParams = [(S ''tab'', S ''billing'')]\<rparr>,
      verified_user = None,
      pathname_setter = (\<lambda>v. if take 1 v = [47] then v else 47 # v)\<rparr>"


definition forged_webhook :: webhook_request where
  "forged_webhook = \<lparr>body = S ''{}'', stripe_signature = Some (S ''forged'')\<rparr>"

section \<open>Properties of the validation library\<close>

lemma S_append: "S a @ S b = S (a @ b)"
  by (simp add: S_def)

lemma clean_iff: "clean r \<longleftrightarrow> (\<exists>v. fst r = OK v)"
  by (cases "fst r") (simp_all add: clean_def)

lemma accepts_iff_clean: "accepts sch obj = clean (sch obj)"
  by (cases "sch obj"; cases "fst (sch obj)") (auto simp: accepts_def safeParse_def clean_def)


lemma safeParse_Inl_issues: "safeParse sch obj = Inl iss \<Longrightarrow> iss = snd (sch obj) \<and> \<not> clean (sch obj)"
  by (cases "sch obj"; cases "fst (sch obj)") (auto simp: safeParse_def clean_def)

lemma mergeObjectSync_OK:
  "(\<exists>v. mergeObjectSync d acc ps = OK v) \<longleftrightarrow> (\<not> d \<and> (\<forall>p\<in>set ps. \<exists>x. fst (snd p) = OK x))"
proof (induction d acc ps rule: mergeObjectSync.induct)
  case (1 d acc)
  then show ?case by simp
next
  case (2 d acc k alwaysSet ps)
  then show ?case by simp
next
  case (3 d acc k v alwaysSet ps)
  then show ?case by simp
next
  case (4 d acc k v alwaysSet ps)
  then show ?case by simp
qed

lemma z_object_clean:
  "clean (z_object shp obj) \<longleftrightarrow> (\<forall>ks\<in>set shp. clean (snd ks (get_prop obj (fst ks))))"
proof -
  have "clean (z_object shp obj) \<longleftrightarrow>
        (\<exists>v. mergeObjectSync False []
           (map (\<lambda>(k, s). (k, fst (s (get_prop obj k)), has_prop obj k)) shp) = OK v)"
    by (simp add: clean_iff z_object_def)
  also have "\<dots> \<longleftrightarrow> (\<forall>ks\<in>set shp. \<exists>x. fst (snd ks (get_prop obj (fst ks))) = OK x)"
    by (simp add: mergeObjectSync_OK split_beta)
  finally show ?thesis by (simp add: clean_iff)
qed

lemma z_object_issues: "snd (z_object shp obj) = concat (map (key_issues obj) shp)"
  by (simp add: z_object_def)

lemma map_of_push_message:
  "map_of (push_message fe k m) k' =
     (if k' = k then Some ((case map_of fe k of None \<Rightarrow> [] | Some ms \<Rightarrow> ms) @ [m])
      else map_of fe k')"
  by (induction fe k m rule: push_message.induct) auto

lemma map_of_fold_issues:
  "map_of (foldl (\<lambda>fe i. case i of ([], m) \<Rightarrow> fe | (k # p, m) \<Rightarrow> push_message fe k m) fe iss) k =
     (case map_of fe k of
        None \<Rightarrow> (if messages_at k iss = [] then None else Some (messages_at k iss))
      | Some ms \<Rightarrow> Some (ms @ messages_at k iss))"
proof (induction k iss arbitrary: fe rule: messages_at.induct)
  case (1 k)
  then show ?case by (simp split: option.splits)
next
  case (2 k m iss)
  then show ?case by (simp split: option.splits)
next
  case (3 k k' p m iss)
  then show ?case
    by (simp add: map_of_push_message split: option.splits)
qed

lemma map_of_fieldErrors:
  "map_of (fieldErrors iss) k =
     (if messages_at k iss = [] then None else Some (messages_at k iss))"
  by (simp add: fieldErrors_def map_of_fold_issues)

lemma messages_at_append: "messages_at k (xs @ ys) = messages_at k xs @ messages_at k ys"
  by (induction k xs rule: messages_at.induct) auto

lemma messages_at_key_issues:
  "messages_at k (key_issues obj ks) =
     (if fst ks = k then messages (snd ks (get_prop obj (fst ks))) else [])"
proof -
  have "messages_at k (map (\<lambda>(p, m). (k0 # p, m)) iss) = (if k0 = k then map snd iss else [])"
    for k0 and iss :: "issue list"
    by (induction iss) (auto simp: split_beta)
  then show ?thesis by (simp add: key_issues_def messages_def)
qed

lemma messages_at_z_object:
  assumes "distinct (map fst shp)" and "(k, s) \<in> set shp"
  shows "messages_at k (snd (z_object shp obj)) = messages (s (get_prop obj k))"
  using assms
proof (induction shp)
  case Nil
  then show ?case by simp
next
  case (Cons ks shp)
  have rest: "messages_at k (concat (map (key_issues obj) shp)) =
              (if (k, s) \<in> set shp then messages (s (get_prop obj k)) else [])"
  proof (cases "(k, s) \<in> set shp")
    case True
    then show ?thesis using Cons by (simp add: z_object_issues)
  next
    case False
    with Cons.prems have ks: "ks = (k, s)" by auto
    with Cons.prems have "k \<notin> fst ` set shp" by auto
    then have "messages_at k (concat (map (key_issues obj) shp)) = []"
      by (induction shp) (auto simp: messages_at_append messages_at_key_issues)
    with False show ?thesis by simp
  qed
  show ?case
  proof (cases "ks = (k, s)")
    case True
    with Cons.prems have "(k, s) \<notin> set shp"
      by (auto simp: image_iff)
    with rest True show ?thesis
      by (simp add: z_object_issues messages_at_append messages_at_key_issues)
  next
    case False
    with Cons.prems have mem: "(k, s) \<in> set shp" by auto
    with Cons.prems have "fst ks \<noteq> k" by (auto simp: image_iff)
    with rest mem show ?thesis
      by (simp add: z_object_issues messages_at_append messages_at_key_issues)
  qed
qed

lemma reports_z_string: "reports (z_string P cs)"
  by (auto simp: reports_def z_string_def clean_def split: jsval.splits prod.splits)

lemma reports_z_enum: "reports (z_enum vals)"
  by (auto simp: reports_def z_enum_def clean_def split: jsval.splits)

lemma reports_z_literal_empty: "reports z_literal_empty"
  by (auto simp: reports_def z_literal_empty_def clean_def)

lemma reports_z_coerce_number: "reports (z_coerce_number P cs)"
  by (auto simp: reports_def z_coerce_number_def clean_def)

lemma reports_z_coerce_date: "reports (z_coerce_date P)"
  by (auto simp: reports_def z_coerce_date_def clean_def)

lemma reports_optional: "reports s \<Longrightarrow> reports (optional s)"
  by (auto simp: reports_def optional_def clean_def)

lemma reports_default: "reports s \<Longrightarrow> reports (default s d)"
  by (auto simp: reports_def default_def)

lemma reports_or: "reports a \<Longrightarrow> reports b \<Longrightarrow> reports (or a b)"
  unfolding reports_def or_def clean_def
proof (intro allI)
  fix v
  assume a: "\<forall>v. (case fst (a v) of OK v \<Rightarrow> True | _ \<Rightarrow> False) \<or> snd (a v) \<noteq> []"
    and b: "\<forall>v. (case fst (b v) of OK v \<Rightarrow> True | _ \<Rightarrow> False) \<or> snd (b v) \<noteq> []"
  obtain ra ia where av: "a v = (ra, ia)" by (cases "a v")
  obtain rb ib where bv: "b v = (rb, ib)" by (cases "b v")
  from a av have a': "(case ra of OK v \<Rightarrow> True | _ \<Rightarrow> False) \<or> ia \<noteq> []"
    by (metis fst_conv snd_conv)
  from b bv have b': "(case rb of OK v \<Rightarrow> True | _ \<Rightarrow> False) \<or> ib \<noteq> []"
    by (metis fst_conv snd_conv)
  show "(case fst (case a v of
            (OK x, uu) \<Rightarrow> (OK x, [])
          | (DIRTY x, ia) \<Rightarrow> (case b v of (OK y, uu) \<Rightarrow> (OK y, []) | _ \<Rightarrow> (DIRTY x, ia))
          | (INVALID, uu) \<Rightarrow>
              (case b v of
                 (OK y, uu) \<Rightarrow> (OK y, [])
               | (DIRTY y, ib) \<Rightarrow> (DIRTY y, ib)
               | (INVALID, uu) \<Rightarrow> (INVALID, [([], S ''Invalid input'')]))) of
          OK v \<Rightarrow> True | _ \<Rightarrow> False) \<or>
        snd (case a v of
            (OK x, uu) \<Rightarrow> (OK x, [])
          | (DIRTY x, ia) \<Rightarrow> (case b v of (OK y, uu) \<Rightarrow> (OK y, []) | _ \<Rightarrow> (DIRTY x, ia))
          | (INVALID, uu) \<Rightarrow>
              (case b v of
                 (OK y, uu) \<Rightarrow> (OK y, [])
               | (DIRTY y, ib) \<Rightarrow> (DIRTY y, ib)
               | (INVALID, uu) \<Rightarrow> (INVALID, [([], S ''Invalid input'')]))) \<noteq> []"
    using a' b' by (cases ra; cases rb) (simp_all add: av bv)
qed

lemma reports_transform: "reports s \<Longrightarrow> reports (transform s f)"
  unfolding reports_def transform_def clean_def
proof (intro allI)
  fix v
  assume a: "\<forall>v. (case fst (s v) of OK v \<Rightarrow> True | _ \<Rightarrow> False) \<or> snd (s v) \<noteq> []"
  obtain r i where sv: "s v = (r, i)" by (cases "s v")
  from a sv have "(case r of OK v \<Rightarrow> True | _ \<Rightarrow> False) \<or> i \<noteq> []"
    by (metis fst_conv snd_conv)
  then show "(case fst (case s v of (OK x, iss) \<Rightarrow> (OK (f x), iss) | r \<Rightarrow> r) of OK v \<Rightarrow> True | _ \<Rightarrow> False)
      \<or> snd (case s v of (OK x, iss) \<Rightarrow> (OK (f x), iss) | r \<Rightarrow> r) \<noteq> []"
    by (cases r) (simp_all add: sv)
qed

lemmas reports_intros =
  reports_z_string reports_z_enum reports_z_literal_empty reports_z_coerce_number
  reports_z_coerce_date reports_optional reports_default reports_or reports_transform

lemma contactSchema_shape_reports: "\<forall>ks\<in>set (contactSchema_shape P). reports (snd ks)"
  by (simp add: contactSchema_shape_def emailSchema_def phoneSchema_def urlSchema_def
      uuidSchema_def reports_intros)

lemma partial_reports:
  "\<forall>ks\<in>set shp. reports (snd ks) \<Longrightarrow> \<forall>ks\<in>set (partial shp). reports (snd ks)"
  by (auto simp: partial_def reports_optional)

lemma contactSchema_shape_distinct: "distinct (map fst (contactSchema_shape P))"
  by (simp add: contactSchema_shape_def S_def)

lemma partial_keys: "map fst (partial shp) = map fst shp"
  by (simp add: partial_def split_beta)

lemma fieldErrors_nonempty:
  assumes "messages_at k iss \<noteq> []"
  shows "fieldErrors iss \<noteq> []"
proof
  assume "fieldErrors iss = []"
  then have "map_of (fieldErrors iss) k = None" by simp
  with assms show False by (simp add: map_of_fieldErrors)
qed

lemma z_object_rejected_field:
  assumes "\<not> clean (z_object shp obj)"
  obtains k s where "(k, s) \<in> set shp" and "\<not> clean (s (get_prop obj k))"
  using assms by (auto simp: z_object_clean)

lemma z_object_reports_fieldErrors:
  assumes rep: "\<forall>ks\<in>set shp. reports (snd ks)" and dist: "distinct (map fst shp)"
    and bad: "\<not> clean (z_object shp obj)"
  shows "fieldErrors (snd (z_object shp obj)) \<noteq> []"
proof -
  from bad obtain k s where ks: "(k, s) \<in> set shp" and nc: "\<not> clean (s (get_prop obj k))"
    by (rule z_object_rejected_field)
  from rep ks have "reports s" by auto
  with nc have "snd (s (get_prop obj k)) \<noteq> []" by (auto simp: reports_def)
  then have "messages (s (get_prop obj k)) \<noteq> []" by (simp add: messages_def)
  with dist ks have "messages_at k (snd (z_object shp obj)) \<noteq> []"
    by (simp add: messages_at_z_object)
  then show ?thesis by (rule fieldErrors_nonempty)
qed

section \<open>Properties of the handlers\<close>

lemma handleActionError_AuthenticationError:
  "handleActionError w AuthenticationError =
     (Failure (Some (S ''You must be logged in to perform this action'')) None, w)"
  by (simp add: handleActionError_def AuthenticationError_def)

lemma handleActionError_NotFoundError:
  "handleActionError w (NotFoundError r) = (Failure (Some (r @ S '' not found'')) None, w)"
  by (simp add: handleActionError_def NotFoundError_def)

text \<open>
  Claim C6. When the session validator resolves no identity, each of the three handlers
  returns the authentication failure with the message "You must be logged in to perform
  this action" and no field errors, whatever the form data and the id are, and leaves the
  world as it was: no statement is logged, no row changes, no path is revalidated,
  nothing is written to the console.
\<close>

theorem unauthenticated_is_noop:
  assumes "session_user w = None"
  shows "createContact P w formData =
           (Failure (Some (S ''You must be logged in to perform this action'')) None, w)
       \<and> updateContact P w i formData =
           (Failure (Some (S ''You must be logged in to perform this action'')) None, w)
       \<and> deleteContact w i =
           (Failure (Some (S ''You must be logged in to perform this action'')) None, w)"
  using assms
  by (simp add: createContact_def createContact_try_def updateContact_def
      updateContact_try_def deleteContact_def deleteContact_try_def
      handleActionError_AuthenticationError)

theorem unauthenticated_is_noop_witness:
  "session_user (example_world None) = None
   \<and> createContact example_platform (example_world None) john_doe_form =
       (Failure (Some (S ''You must be logged in to perform this action'')) None,
        example_world None)
   \<and> updateContact example_platform (example_world None) (S ''c1'') john_doe_form =
       (Failure (Some (S ''You must be logged in to perform this action'')) None,
        example_world None)
   \<and> deleteContact (example_world None) (S ''c1'') =
       (Failure (Some (S ''You must be logged in to perform this action'')) None,
        example_world None)"
proof -
  have anonymous: "session_user (example_world None) = None"
    by (simp add: example_world_def)
  from unauthenticated_is_noop [OF anonymous, of example_platform john_doe_form "S ''c1''"]
    anonymous
  show ?thesis by simp
qed

lemma Contact_not_found: "S ''Contact'' @ S '' not found'' = S ''Contact not found''"
  by (simp add: S_def)

lemma canonical_Rep_uuid: "canonical_uuid (Rep_uuid x)"
  using Rep_uuid [of x] by simp

lemma read_uuid_Rep_uuid: "read_uuid w (Rep_uuid x) = Some x"
  by (simp add: read_uuid_def canonical_Rep_uuid Rep_uuid_inverse)

lemma read_uuid_user_id: "read_uuid w (user_id u) = Some (user_uuid u)"
  by (simp add: user_id_def read_uuid_Rep_uuid)

lemma read_uuid_contact_id: "read_uuid w (contact_id r) = Some (id_uuid r)"
  by (simp add: contact_id_def read_uuid_Rep_uuid)

lemma read_uuid_canonical: "canonical_uuid s \<Longrightarrow> read_uuid w s = Some (Abs_uuid s)"
  by (simp add: read_uuid_def)

lemma Rep_Abs_uuid: "canonical_uuid s \<Longrightarrow> Rep_uuid (Abs_uuid s) = s"
  by (simp add: Abs_uuid_inverse)

lemma userId_eq_user_id: "userId r = user_id u \<longleftrightarrow> userId_uuid r = user_uuid u"
  by (simp add: userId_def user_id_def Rep_uuid_inject)

lemma filter_untargeted:
  assumes "filter (targets i uid) rows = []"
  shows "filter (\<lambda>r. \<not> targets i uid r) rows = rows"
  using assms by (induction rows) (auto split: if_splits)

lemma map_untargeted:
  assumes "filter (targets i uid) rows = []"
  shows "map (\<lambda>r. if targets i uid r then f r else r) rows = rows"
  using assms by (induction rows) (auto split: if_splits)

lemma db_delete_contacts_read:
  assumes "read_uuid w i = Some x"
  shows "db_delete_contacts w i (user_id u) =
           Inr (filter (targets x (user_uuid u)) (contacts w),
                w\<lparr>contacts := filter (\<lambda>r. \<not> targets x (user_uuid u) r) (contacts w),
                  db_log := db_log w @ [DeleteContacts i (user_id u)]\<rparr>)"
  using assms by (simp add: db_delete_contacts_def uuid_fault_def read_uuid_user_id)

lemma db_delete_contacts_unread:
  assumes "read_uuid w i = None"
  shows "db_delete_contacts w i (user_id u) =
           Inl (db_error w (InvalidUuid i),
                w\<lparr>db_log := db_log w @ [DeleteContacts i (user_id u)]\<rparr>)"
  using assms by (simp add: db_delete_contacts_def uuid_fault_def)

lemma deleteContact_missing:
  assumes "session_user w = Some u" and "read_uuid w i = Some x"
    and "filter (targets x (user_uuid u)) (contacts w) = []"
  shows "deleteContact w i =
           (Failure (Some (S ''Contact not found'')) None,
            w\<lparr>db_log := db_log w @ [DeleteContacts i (user_id u)]\<rparr>)"
  using assms
  by (simp add: deleteContact_def deleteContact_try_def db_delete_contacts_read
      handleActionError_NotFoundError filter_untargeted Contact_not_found)

lemma deleteContact_try_missing:
  assumes "session_user w = Some u" and "read_uuid w i = Some x"
    and "filter (targets x (user_uuid u)) (contacts w) = []"
  shows "deleteContact_try w i =
           Inl (NotFoundError (S ''Contact''),
                w\<lparr>db_log := db_log w @ [DeleteContacts i (user_id u)]\<rparr>)"
  using assms
  by (simp add: deleteContact_try_def db_delete_contacts_read filter_untargeted)

lemma deleteContact_found:
  assumes "session_user w = Some u" and "read_uuid w i = Some x"
    and "filter (targets x (user_uuid u)) (contacts w) \<noteq> []"
  shows "deleteContact w i =
           (Success None (Some (S ''Contact deleted successfully'')),
            w\<lparr>contacts := filter (\<lambda>r. \<not> targets x (user_uuid u) r) (contacts w),
              db_log := db_log w @ [DeleteContacts i (user_id u)],
              revalidated := revalidated w @ [S ''/contacts'']\<rparr>)"
  using assms
  by (cases "filter (targets x (user_uuid u)) (contacts w)")
     (simp_all add: deleteContact_def deleteContact_try_def db_delete_contacts_read
      revalidatePath_def)

lemma deleteContact_unread:
  assumes "session_user w = Some u" and "read_uuid w i = None"
  shows "deleteContact w i =
           handleActionError (w\<lparr>db_log := db_log w @ [DeleteContacts i (user_id u)]\<rparr>)
             (db_error w (InvalidUuid i))"
  using assms
  by (simp add: deleteContact_def deleteContact_try_def db_delete_contacts_unread)

lemma handleActionError_db_error:
  "\<exists>m. fst (handleActionError w (db_error w0 f)) = Failure (Some m) None"
  by (simp add: handleActionError_def db_error_def)

lemma handleActionError_db_error_log:
  "db_log (snd (handleActionError w (db_error w0 f))) = db_log w
   \<and> contacts (snd (handleActionError w (db_error w0 f))) = contacts w"
  by (simp add: handleActionError_def db_error_def)

lemma owned_row_target:
  assumes "list_ex (\<lambda>r. contact_id r = i \<and> userId r = user_id u) rows"
  shows "\<exists>x. read_uuid w i = Some x \<and> filter (targets x (user_uuid u)) rows \<noteq> []"
proof -
  from assms obtain r where r: "r \<in> set rows" "contact_id r = i" "userId r = user_id u"
    by (auto simp: list_ex_iff)
  from r(2) have "read_uuid w i = Some (id_uuid r)"
    using read_uuid_contact_id [of w r] by simp
  moreover from r(3) have "targets (id_uuid r) (user_uuid u) r"
    by (simp add: targets_def userId_eq_user_id)
  with r(1) have "filter (targets (id_uuid r) (user_uuid u)) rows \<noteq> []"
    by (auto simp: filter_empty_conv)
  ultimately show ?thesis by blast
qed

text \<open>
  Claim C7. When the session resolves an identity and the table holds a row with the given
  id owned by that identity, the first delete returns the success result, and the same
  delete issued again on the resulting world, still under that identity, returns the
  not-found result: its \<open>try\<close> block throws \<open>NotFoundError\<close>, which the \<open>catch\<close> turns
  into \<open>{success: false, error: "Contact not found"}\<close>, having logged one statement and
  changed nothing else.
\<close>

theorem delete_twice:
  assumes auth: "session_user w = Some u"
    and owned: "list_ex (\<lambda>r. contact_id r = i \<and> userId r = user_id u) (contacts w)"
  shows "fst (deleteContact w i) = Success None (Some (S ''Contact deleted successfully''))
       \<and> session_user (snd (deleteContact w i)) = Some u
       \<and> deleteContact_try (snd (deleteContact w i)) i =
           Inl (NotFoundError (S ''Contact''),
                (snd (deleteContact w i))
                  \<lparr>db_log := db_log (snd (deleteContact w i)) @ [DeleteContacts i (user_id u)]\<rparr>)
       \<and> deleteContact (snd (deleteContact w i)) i =
           (Failure (Some (S ''Contact not found'')) None,
            (snd (deleteContact w i))
              \<lparr>db_log := db_log (snd (deleteContact w i)) @ [DeleteContacts i (user_id u)]\<rparr>)"
proof -
  from owned obtain x where read: "read_uuid w i = Some x"
    and some: "filter (targets x (user_uuid u)) (contacts w) \<noteq> []"
    using owned_row_target by blast
  let ?w1 = "w\<lparr>contacts := filter (\<lambda>r. \<not> targets x (user_uuid u) r) (contacts w),
                db_log := db_log w @ [DeleteContacts i (user_id u)],
                revalidated := revalidated w @ [S ''/contacts'']\<rparr>"
  from auth read some have first:
    "deleteContact w i = (Success None (Some (S ''Contact deleted successfully'')), ?w1)"
    by (rule deleteContact_found)
  have auth1: "session_user ?w1 = Some u" using auth by simp
  have "read_uuid ?w1 i = read_uuid w i" by (simp add: read_uuid_def)
  with read have read1: "read_uuid ?w1 i = Some x" by simp
  have gone: "filter (targets x (user_uuid u)) (contacts ?w1) = []"
    by (simp add: filter_empty_conv)
  from auth1 read1 gone have second:
    "deleteContact ?w1 i =
       (Failure (Some (S ''Contact not found'')) None,
        ?w1\<lparr>db_log := db_log ?w1 @ [DeleteContacts i (user_id u)]\<rparr>)"
    by (rule deleteContact_missing)
  from auth1 read1 gone have thrown:
    "deleteContact_try ?w1 i =
       Inl (NotFoundError (S ''Contact''),
            ?w1\<lparr>db_log := db_log ?w1 @ [DeleteContacts i (user_id u)]\<rparr>)"
    by (rule deleteContact_try_missing)
  show ?thesis
    unfolding first fst_conv snd_conv using auth1 second thrown by simp
qed

lemma example_ids_canonical:
  "canonical_uuid alice_id" "canonical_uuid bob_id" "canonical_uuid c1_id"
  "canonical_uuid c2_id" "canonical_uuid c9_id"
  by (simp_all add: canonical_uuid_def alice_id_def bob_id_def c1_id_def c2_id_def c9_id_def
      S_def is_hex_def)

lemma example_ids_distinct:
  "alice_id \<noteq> bob_id" "c1_id \<noteq> c9_id" "c1_id \<noteq> c2_id"
  by (simp_all add: alice_id_def bob_id_def c1_id_def c2_id_def c9_id_def S_def)

lemma example_user_ids: "user_id alice = alice_id" "user_id bob = bob_id"
  by (simp_all add: user_id_def alice_def bob_def Rep_Abs_uuid example_ids_canonical)

lemma alices_contact_ids:
  "contact_id alices_contact = c1_id" "userId alices_contact = alice_id"
  by (simp_all add: contact_id_def userId_def alices_contact_def Rep_Abs_uuid
      example_ids_canonical)

theorem delete_twice_witness:
  "session_user (example_world (Some alice)) = Some alice
   \<and> list_ex (\<lambda>r. contact_id r = c1_id \<and> userId r = user_id alice)
        (contacts (example_world (Some alice)))
   \<and> fst (deleteContact (example_world (Some alice)) c1_id) =
        Success None (Some (S ''Contact deleted successfully''))
   \<and> fst (deleteContact (snd (deleteContact (example_world (Some alice)) c1_id)) c1_id)
        = Failure (Some (S ''Contact not found'')) None"
proof -
  have auth: "session_user (example_world (Some alice)) = Some alice"
    by (simp add: example_world_def)
  have owned: "list_ex (\<lambda>r. contact_id r = c1_id \<and> userId r = user_id alice)
        (contacts (example_world (Some alice)))"
    by (simp add: example_world_def alices_contact_ids example_user_ids)
  from delete_twice [OF auth owned] auth owned show ?thesis by simp
qed

lemma handleActionError_result_only:
  "fst (handleActionError w e) = fst (handleActionError w' e)"
  by (simp add: handleActionError_def split: thrown.splits)

lemma handleActionError_keeps_rows:
  "contacts (snd (handleActionError w e)) = contacts w
   \<and> db_log (snd (handleActionError w e)) = db_log w"
  by (simp add: handleActionError_def split: thrown.splits)

lemma db_update_contacts_fault:
  assumes "param_fault w vals = Some f"
  shows "db_update_contacts w vals i uid =
           Inl (db_error w f, w\<lparr>db_log := db_log w @ [UpdateContacts vals i uid]\<rparr>)"
  using assms by (simp add: db_update_contacts_def)

lemma db_update_contacts_unread:
  assumes "param_fault w vals = None" and "read_uuid w i = None"
  shows "db_update_contacts w vals i uid =
           Inl (db_error w (InvalidUuid i),
                w\<lparr>db_log := db_log w @ [UpdateContacts vals i uid]\<rparr>)"
  using assms by (simp add: db_update_contacts_def uuid_fault_def)

lemma db_update_contacts_none:
  assumes "param_fault w vals = None" and "read_uuid w i = Some x"
    and "filter (targets x (user_uuid u)) (contacts w) = []"
  shows "db_update_contacts w vals i (user_id u) =
           Inr ([], w\<lparr>db_log := db_log w @ [UpdateContacts vals i (user_id u)]\<rparr>)"
  using assms
  by (simp add: db_update_contacts_def uuid_fault_def read_uuid_user_id map_untargeted)

lemma updateContact_rejected:
  assumes "session_user w = Some u"
    and "safeParse (contactUpdateSchema P) (Object_fromEntries formData) = Inl iss"
  shows "updateContact P w i formData = (Failure None (Some (fieldErrors iss)), w)"
  using assms by (simp add: updateContact_def updateContact_try_def)

lemma createContact_rejected:
  assumes "session_user w = Some u"
    and "safeParse (contactSchema P) (Object_fromEntries formData) = Inl iss"
  shows "createContact P w formData = (Failure None (Some (fieldErrors iss)), w)"
  using assms by (simp add: createContact_def createContact_try_def)

lemma updateContact_fault:
  assumes "session_user w = Some u"
    and "safeParse (contactUpdateSchema P) (Object_fromEntries formData) = Inr data"
    and "param_fault w data = Some f"
  shows "updateContact P w i formData =
           handleActionError (w\<lparr>db_log := db_log w @ [UpdateContacts data i (user_id u)]\<rparr>)
             (db_error w f)"
  using assms
  by (simp add: updateContact_def updateContact_try_def db_update_contacts_fault)

lemma updateContact_missing:
  assumes "session_user w = Some u"
    and "safeParse (contactUpdateSchema P) (Object_fromEntries formData) = Inr data"
    and "param_fault w data = None" and "read_uuid w i = Some x"
    and "filter (targets x (user_uuid u)) (contacts w) = []"
  shows "updateContact P w i formData =
           (Failure (Some (S ''Contact not found'')) None,
            w\<lparr>db_log := db_log w @ [UpdateContacts data i (user_id u)]\<rparr>)"
  using assms
  by (simp add: updateContact_def updateContact_try_def db_update_contacts_none
      handleActionError_NotFoundError Contact_not_found)

lemma foreign_row_no_target:
  assumes some: "list_ex (\<lambda>r. contact_id r = i) rows"
    and foreign: "list_all (\<lambda>r. contact_id r = i \<longrightarrow> userId r \<noteq> user_id u) rows"
  shows "\<exists>x. read_uuid w i = Some x \<and> filter (targets x (user_uuid u)) rows = []"
proof -
  from some obtain r where r: "r \<in> set rows" "contact_id r = i"
    by (auto simp: list_ex_iff)
  from r(2) have read: "read_uuid w i = Some (id_uuid r)"
    using read_uuid_contact_id [of w r] by simp
  have "\<not> targets (id_uuid r) (user_uuid u) r'" if "r' \<in> set rows" for r'
  proof
    assume t: "targets (id_uuid r) (user_uuid u) r'"
    then have "contact_id r' = i" using r(2) by (simp add: targets_def contact_id_def)
    with foreign that have "userId r' \<noteq> user_id u" by (auto simp: list_all_iff)
    with t show False by (simp add: targets_def userId_eq_user_id)
  qed
  then have "filter (targets (id_uuid r) (user_uuid u)) rows = []"
    by (simp add: filter_empty_conv)
  with read show ?thesis by blast
qed

lemma absent_row_no_target:
  assumes "list_all (\<lambda>r. id_uuid r \<noteq> x) rows"
  shows "filter (targets x y) rows = []"
  using assms by (induction rows) (auto simp: targets_def)

lemmas schema_eval =
  contactSchema_def contactUpdateSchema_def z_object_def contactSchema_shape_def partial_def
  Object_fromEntries_def get_prop_def has_prop_def S_def z_string_def key_issues_def
  emailSchema_def phoneSchema_def urlSchema_def uuidSchema_def transform_def
  or_def optional_def default_def z_enum_def contactTypes_def z_literal_empty_def
  or_undefined_def example_platform_def ascii_lower_def js_trim_def js_whitespace_def

lemma nameless_form_create:
  "contactSchema example_platform (Object_fromEntries nameless_form) =
     (DIRTY [(S ''firstName'', Str []), (S ''lastName'', Str (S ''Doe'')),
             (S ''email'', Str (S ''john@example.com'')), (S ''type'', Str (S ''lead''))],
      [([S ''firstName''], S ''First name is required'')])"
  by (simp add: schema_eval nameless_form_def)

lemma nameless_form_update:
  "contactUpdateSchema example_platform (Object_fromEntries nameless_form) =
     (DIRTY [(S ''firstName'', Str []), (S ''lastName'', Str (S ''Doe'')),
             (S ''email'', Str (S ''john@example.com''))],
      [([S ''firstName''], S ''First name is required'')])"
  by (simp add: schema_eval nameless_form_def)

lemma john_doe_form_update:
  "contactUpdateSchema example_platform (Object_fromEntries john_doe_form) =
     (OK [(S ''firstName'', Str (S ''John'')), (S ''lastName'', Str (S ''Doe'')),
          (S ''email'', Str (S ''john@example.com''))], [])"
  by (simp add: schema_eval john_doe_form_def)

lemma john_doe_params:
  "param_fault w [(S ''firstName'', Str (S ''John'')), (S ''lastName'', Str (S ''Doe'')),
          (S ''email'', Str (S ''john@example.com''))] = None"
  by (simp add: param_fault_def uuid_fault_def text_fault_def enum_fault_def get_prop_def S_def)

lemma fieldErrors_firstName_required:
  "fieldErrors [([S ''firstName''], S ''First name is required'')] =
     [(S ''firstName'', [S ''First name is required''])]"
  by (simp add: fieldErrors_def)

text \<open>
  Claim C1 says that every authenticated update of a row owned by someone else returns
  the not-found result. An update whose form data fails the schema does not get that far:
  for the second identity, the contact of the first and a form with an empty first name,
  the handler returns the field errors.
\<close>

theorem foreign_update_invalid_form_counterexample:
  "session_user (example_world (Some bob)) = Some bob
   \<and> list_ex (\<lambda>r. contact_id r = c1_id) (contacts (example_world (Some bob)))
   \<and> list_all (\<lambda>r. contact_id r = c1_id \<longrightarrow> userId r \<noteq> user_id bob)
        (contacts (example_world (Some bob)))
   \<and> fst (updateContact example_platform (example_world (Some bob)) c1_id nameless_form) =
        Failure None (Some [(S ''firstName'', [S ''First name is required''])])
   \<and> fst (updateContact example_platform (example_world (Some bob)) c1_id nameless_form) \<noteq>
        Failure (Some (S ''Contact not found'')) None"
proof -
  have auth: "session_user (example_world (Some bob)) = Some bob"
    by (simp add: example_world_def)
  have "safeParse (contactUpdateSchema example_platform) (Object_fromEntries nameless_form) =
          Inl [([S ''firstName''], S ''First name is required'')]"
    by (simp add: safeParse_def nameless_form_update)
  from updateContact_rejected [OF auth this, of c1_id]
  have "updateContact example_platform (example_world (Some bob)) c1_id nameless_form =
          (Failure None (Some [(S ''firstName'', [S ''First name is required''])]),
           example_world (Some bob))"
    by (simp add: fieldErrors_firstName_required)
  with auth example_ids_distinct show ?thesis
    by (simp add: example_world_def alices_contact_ids example_user_ids)
qed

text \<open>
  Claim C1, amended. For an authenticated request, an id \<open>i\<close> that exists in the table
  under other owners only, and an id \<open>j\<close> of uuid syntax that no row has: delete returns
  the not-found result \<open>{success: false, error: "Contact not found"}\<close> for both; update
  returns that same result for both when the form data passes the update schema and the
  database can read the validated values as parameters, and the same field-error result
  for both when the form data does not pass; whatever the form data is, update returns
  the same result for both; and in every case the rows of the table are what they were.
\<close>

theorem foreign_row_looks_missing:
  assumes auth: "session_user w = Some u"
    and exists: "list_ex (\<lambda>r. contact_id r = i) (contacts w)"
    and foreign: "list_all (\<lambda>r. contact_id r = i \<longrightarrow> userId r \<noteq> user_id u) (contacts w)"
    and readable: "read_uuid w j = Some x"
    and absent: "list_all (\<lambda>r. id_uuid r \<noteq> x) (contacts w)"
  shows "fst (deleteContact w i) = Failure (Some (S ''Contact not found'')) None
       \<and> fst (deleteContact w j) = Failure (Some (S ''Contact not found'')) None
       \<and> contacts (snd (deleteContact w i)) = contacts w
       \<and> contacts (snd (deleteContact w j)) = contacts w
       \<and> (\<forall>data. safeParse (contactUpdateSchema P) (Object_fromEntries formData) = Inr data
              \<and> param_fault w data = None \<longrightarrow>
            fst (updateContact P w i formData) = Failure (Some (S ''Contact not found'')) None
          \<and> fst (updateContact P w j formData) = Failure (Some (S ''Contact not found'')) None)
       \<and> (\<not> accepts (contactUpdateSchema P) (Object_fromEntries formData) \<longrightarrow>
            fst (updateContact P w i formData) =
              Failure None
                (Some (fieldErrors (snd (contactUpdateSchema P (Object_fromEntries formData)))))
          \<and> fst (updateContact P w j formData) =
              Failure None
                (Some (fieldErrors (snd (contactUpdateSchema P (Object_fromEntries formData))))))
       \<and> fst (updateContact P w i formData) = fst (updateContact P w j formData)
       \<and> contacts (snd (updateContact P w i formData)) = contacts w
       \<and> contacts (snd (updateContact P w j formData)) = contacts w"
proof -
  from exists foreign obtain y where ri: "read_uuid w i = Some y"
    and ni: "filter (targets y (user_uuid u)) (contacts w) = []"
    using foreign_row_no_target by blast
  from absent have nj: "filter (targets x (user_uuid u)) (contacts w) = []"
    by (rule absent_row_no_target)
  have del: "fst (deleteContact w i) = Failure (Some (S ''Contact not found'')) None"
    "fst (deleteContact w j) = Failure (Some (S ''Contact not found'')) None"
    "contacts (snd (deleteContact w i)) = contacts w"
    "contacts (snd (deleteContact w j)) = contacts w"
    by (simp_all add: deleteContact_missing [OF auth ri ni]
        deleteContact_missing [OF auth readable nj])
  show ?thesis
  proof (cases "safeParse (contactUpdateSchema P) (Object_fromEntries formData)")
    case (Inl iss)
    then have rej: "\<not> accepts (contactUpdateSchema P) (Object_fromEntries formData)"
      and iss: "iss = snd (contactUpdateSchema P (Object_fromEntries formData))"
      by (simp_all add: accepts_def safeParse_Inl_issues)
    from updateContact_rejected [OF auth Inl] Inl rej iss del show ?thesis by simp
  next
    case (Inr data)
    then have acc: "accepts (contactUpdateSchema P) (Object_fromEntries formData)"
      by (simp add: accepts_def)
    show ?thesis
    proof (cases "param_fault w data")
      case None
      from updateContact_missing [OF auth Inr None ri ni]
        updateContact_missing [OF auth Inr None readable nj] Inr acc del
      show ?thesis by simp
    next
      case (Some f)
      have "fst (updateContact P w i formData) = fst (updateContact P w j formData)"
        unfolding updateContact_fault [OF auth Inr Some]
        by (rule handleActionError_result_only)
      moreover have "contacts (snd (updateContact P w i formData)) = contacts w"
        "contacts (snd (updateContact P w j formData)) = contacts w"
        unfolding updateContact_fault [OF auth Inr Some]
        by (simp_all add: handleActionError_keeps_rows)
      ultimately show ?thesis using Inr Some acc del by simp
    qed
  qed
qed

theorem foreign_row_looks_missing_witness:
  "session_user (example_world (Some bob)) = Some bob
   \<and> list_ex (\<lambda>r. contact_id r = c1_id) (contacts (example_world (Some bob)))
   \<and> list_all (\<lambda>r. contact_id r = c1_id \<longrightarrow> userId r \<noteq> user_id bob)
        (contacts (example_world (Some bob)))
   \<and> read_uuid (example_world (Some bob)) c9_id = Some (Abs_uuid c9_id)
   \<and> list_all (\<lambda>r. id_uuid r \<noteq> Abs_uuid c9_id) (contacts (example_world (Some bob)))
   \<and> safeParse (contactUpdateSchema example_platform) (Object_fromEntries john_doe_form) =
        Inr [(S ''firstName'', Str (S ''John'')), (S ''lastName'', Str (S ''Doe'')),
             (S ''email'', Str (S ''john@example.com''))]
   \<and> param_fault (example_world (Some bob))
        [(S ''firstName'', Str (S ''John'')), (S ''lastName'', Str (S ''Doe'')),
         (S ''email'', Str (S ''john@example.com''))] = None
   \<and> fst (deleteContact (example_world (Some bob)) c1_id) =
        Failure (Some (S ''Contact not found'')) None
   \<and> fst (deleteContact (example_world (Some bob)) c9_id) =
        Failure (Some (S ''Contact not found'')) None
   \<and> fst (updateContact example_platform (example_world (Some bob)) c1_id john_doe_form) =
        Failure (Some (S ''Contact not found'')) None
   \<and> fst (updateContact example_platform (example_world (Some bob)) c9_id john_doe_form) =
        Failure (Some (S ''Contact not found'')) None
   \<and> contacts (snd (updateContact example_platform (example_world (Some bob)) c1_id
        john_doe_form)) = contacts (example_world (Some bob))"
proof -
  have auth: "session_user (example_world (Some bob)) = Some bob"
    by (simp add: example_world_def)
  have exists: "list_ex (\<lambda>r. contact_id r = c1_id) (contacts (example_world (Some bob)))"
    by (simp add: example_world_def alices_contact_ids)
  have foreign: "list_all (\<lambda>r. contact_id r = c1_id \<longrightarrow> userId r \<noteq> user_id bob)
        (contacts (example_world (Some bob)))"
    using example_ids_distinct
    by (simp add: example_world_def alices_contact_ids example_user_ids)
  have readable: "read_uuid (example_world (Some bob)) c9_id = Some (Abs_uuid c9_id)"
    by (simp add: read_uuid_canonical example_ids_canonical)
  have "Abs_uuid c1_id \<noteq> Abs_uuid c9_id"
    using example_ids_distinct by (simp add: Abs_uuid_inject example_ids_canonical)
  then have absent: "list_all (\<lambda>r. id_uuid r \<noteq> Abs_uuid c9_id)
      (contacts (example_world (Some bob)))"
    by (simp add: example_world_def alices_contact_def)
  have parse: "safeParse (contactUpdateSchema example_platform)
      (Object_fromEntries john_doe_form) =
        Inr [(S ''firstName'', Str (S ''John'')), (S ''lastName'', Str (S ''Doe'')),
             (S ''email'', Str (S ''john@example.com''))]"
    by (simp add: safeParse_def john_doe_form_update)
  note params = john_doe_params [of "example_world (Some bob)"]
  from foreign_row_looks_missing [OF auth exists foreign readable absent,
      of example_platform john_doe_form]
    auth exists foreign readable absent parse params
  show ?thesis by simp
qed

lemma not_a_uuid_unread:
  "read_uuid (example_world u) (S ''not-a-uuid'') = None"
  by (simp add: read_uuid_def example_world_def canonical_uuid_def ascii_lower_def S_def)

lemma not_a_uuid_message:
  "handleActionError w (db_error (example_world u) (InvalidUuid (S ''not-a-uuid''))) =
     (Failure (Some (S ''An unexpected error occurred. Please try again.'')) None,
      w\<lparr>console := console w
          @ [JsError (S ''invalid input syntax for type uuid: \"not-a-uuid\"'')]\<rparr>)"
  by (simp add: handleActionError_def db_error_def example_world_def S_def startsWith_def)

text \<open>
  Claim C3 says that delete, too, validates its input against a schema before any
  data-layer call. \<open>deleteContact\<close> has no validation step: for the first identity and
  the id \<open>not-a-uuid\<close>, which the id schema \<open>uuidSchema\<close> rejects, the delete statement
  is sent; the database cannot read the id, and the answer is the unexpected-error result
  of the \<open>catch\<close>, not a field-error map.
\<close>

theorem delete_unvalidated_counterexample:
  "session_user (example_world (Some alice)) = Some alice
   \<and> \<not> clean (uuidSchema example_platform (Str (S ''not-a-uuid'')))
   \<and> deleteContact (example_world (Some alice)) (S ''not-a-uuid'') =
       (Failure (Some (S ''An unexpected error occurred. Please try again.'')) None,
        (example_world (Some alice))
          \<lparr>db_log := [DeleteContacts (S ''not-a-uuid'') alice_id],
            console := [JsError (S ''invalid input syntax for type uuid: \"not-a-uuid\"'')]\<rparr>)"
proof -
  have auth: "session_user (example_world (Some alice)) = Some alice"
    by (simp add: example_world_def)
  have bad: "\<not> clean (uuidSchema example_platform (Str (S ''not-a-uuid'')))"
    by (simp add: uuidSchema_def z_string_def clean_def example_platform_def
        canonical_uuid_def ascii_lower_def S_def)
  have empty: "db_log (example_world (Some alice)) = []" "console (example_world (Some alice)) = []"
    by (simp_all add: example_world_def)
  from deleteContact_unread [OF auth not_a_uuid_unread] auth bad empty show ?thesis
    by (simp add: not_a_uuid_message example_user_ids)
qed

text \<open>
  Claim C3, amended. For an authenticated request, create and update validate the form
  data first: when the entity's schema rejects it, the handler returns
  \<open>{success: false, errors}\<close> with the non-empty field-error map of the failed parse and
  leaves the world as it was, so no statement reaches the database. Delete takes an id
  only and has no validation step: it always sends its one delete statement, and answers
  with the success result or with an error message and no field-error map; for an id the
  database cannot read, the answer is what the \<open>catch\<close> makes of the driver's error.
\<close>

theorem validation_before_data_layer:
  assumes auth: "session_user w = Some u"
  shows "(\<not> accepts (contactSchema P) (Object_fromEntries formData) \<longrightarrow>
            createContact P w formData =
              (Failure None
                 (Some (fieldErrors (snd (contactSchema P (Object_fromEntries formData))))), w)
          \<and> fieldErrors (snd (contactSchema P (Object_fromEntries formData))) \<noteq> [])
       \<and> (\<not> accepts (contactUpdateSchema P) (Object_fromEntries formData) \<longrightarrow>
            updateContact P w i formData =
              (Failure None
                 (Some (fieldErrors (snd (contactUpdateSchema P (Object_fromEntries formData))))),
               w)
          \<and> fieldErrors (snd (contactUpdateSchema P (Object_fromEntries formData))) \<noteq> [])
       \<and> db_log (snd (deleteContact w i)) = db_log w @ [DeleteContacts i (user_id u)]
       \<and> (fst (deleteContact w i) = Success None (Some (S ''Contact deleted successfully''))
          \<or> (\<exists>m. fst (deleteContact w i) = Failure (Some m) None))
       \<and> (read_uuid w i = None \<longrightarrow>
            deleteContact w i =
              handleActionError (w\<lparr>db_log := db_log w @ [DeleteContacts i (user_id u)]\<rparr>)
                (db_error w (InvalidUuid i)))"
proof -
  let ?raw = "Object_fromEntries formData"
  have create: "createContact P w formData =
      (Failure None (Some (fieldErrors (snd (contactSchema P ?raw)))), w)
      \<and> fieldErrors (snd (contactSchema P ?raw)) \<noteq> []"
    if rej: "\<not> accepts (contactSchema P) ?raw"
  proof -
    from rej obtain iss where iss: "safeParse (contactSchema P) ?raw = Inl iss"
      by (cases "safeParse (contactSchema P) ?raw") (auto simp: accepts_def)
    then have eq: "iss = snd (contactSchema P ?raw)" and nc: "\<not> clean (contactSchema P ?raw)"
      by (simp_all add: safeParse_Inl_issues)
    from nc have "fieldErrors (snd (contactSchema P ?raw)) \<noteq> []"
      unfolding contactSchema_def
      by (intro z_object_reports_fieldErrors contactSchema_shape_reports
          contactSchema_shape_distinct)
    with createContact_rejected [OF auth iss] eq show ?thesis by simp
  qed
  have update: "updateContact P w i formData =
      (Failure None (Some (fieldErrors (snd (contactUpdateSchema P ?raw)))), w)
      \<and> fieldErrors (snd (contactUpdateSchema P ?raw)) \<noteq> []"
    if rej: "\<not> accepts (contactUpdateSchema P) ?raw"
  proof -
    from rej obtain iss where iss: "safeParse (contactUpdateSchema P) ?raw = Inl iss"
      by (cases "safeParse (contactUpdateSchema P) ?raw") (auto simp: accepts_def)
    then have eq: "iss = snd (contactUpdateSchema P ?raw)"
      and nc: "\<not> clean (contactUpdateSchema P ?raw)"
      by (simp_all add: safeParse_Inl_issues)
    from nc have "fieldErrors (snd (contactUpdateSchema P ?raw)) \<noteq> []"
      unfolding contactUpdateSchema_def
      by (intro z_object_reports_fieldErrors partial_reports contactSchema_shape_reports)
         (simp add: partial_keys contactSchema_shape_distinct)
    with updateContact_rejected [OF auth iss] eq show ?thesis by simp
  qed
  have delete: "db_log (snd (deleteContact w i)) = db_log w @ [DeleteContacts i (user_id u)]
       \<and> (fst (deleteContact w i) = Success None (Some (S ''Contact deleted successfully''))
          \<or> (\<exists>m. fst (deleteContact w i) = Failure (Some m) None))
       \<and> (read_uuid w i = None \<longrightarrow>
            deleteContact w i =
              handleActionError (w\<lparr>db_log := db_log w @ [DeleteContacts i (user_id u)]\<rparr>)
                (db_error w (InvalidUuid i)))"
  proof (cases "read_uuid w i")
    case None
    from deleteContact_unread [OF auth None]
      handleActionError_db_error
        [of "w\<lparr>db_log := db_log w @ [DeleteContacts i (user_id u)]\<rparr>" w "InvalidUuid i"]
      handleActionError_db_error_log
        [of "w\<lparr>db_log := db_log w @ [DeleteContacts i (user_id u)]\<rparr>" w "InvalidUuid i"]
    show ?thesis by simp
  next
    case (Some x)
    show ?thesis
    proof (cases "filter (targets x (user_uuid u)) (contacts w) = []")
      case True
      from deleteContact_missing [OF auth Some True] Some show ?thesis by simp
    next
      case False
      from deleteContact_found [OF auth Some False] Some show ?thesis by simp
    qed
  qed
  from create update delete show ?thesis by blast
qed

theorem validation_before_data_layer_witness:
  "session_user (example_world (Some alice)) = Some alice
   \<and> \<not> accepts (contactSchema example_platform) (Object_fromEntries nameless_form)
   \<and> createContact example_platform (example_world (Some alice)) nameless_form =
       (Failure None (Some [(S ''firstName'', [S ''First name is required''])]),
        example_world (Some alice))
   \<and> \<not> accepts (contactUpdateSchema example_platform) (Object_fromEntries nameless_form)
   \<and> updateContact example_platform (example_world (Some alice)) c1_id nameless_form =
       (Failure None (Some [(S ''firstName'', [S ''First name is required''])]),
        example_world (Some alice))
   \<and> db_log (snd (deleteContact (example_world (Some alice)) c1_id)) =
       [DeleteContacts c1_id alice_id]
   \<and> read_uuid (example_world (Some alice)) (S ''not-a-uuid'') = None
   \<and> fst (deleteContact (example_world (Some alice)) (S ''not-a-uuid'')) =
       Failure (Some (S ''An unexpected error occurred. Please try again.'')) None"
proof -
  have auth: "session_user (example_world (Some alice)) = Some alice"
    by (simp add: example_world_def)
  have rc: "\<not> accepts (contactSchema example_platform) (Object_fromEntries nameless_form)"
    by (simp add: accepts_def safeParse_def nameless_form_create)
  have ru: "\<not> accepts (contactUpdateSchema example_platform) (Object_fromEntries nameless_form)"
    by (simp add: accepts_def safeParse_def nameless_form_update)
  have log: "db_log (example_world (Some alice)) = []"
    by (simp add: example_world_def)
  note unread = not_a_uuid_unread [of "Some alice"]
  from validation_before_data_layer [OF auth, of example_platform nameless_form c1_id]
    validation_before_data_layer [OF auth, of example_platform nameless_form "S ''not-a-uuid''"]
    auth rc ru log unread
  show ?thesis
    by (simp add: nameless_form_create nameless_form_update fieldErrors_firstName_required
        example_user_ids not_a_uuid_message)
qed









lemma dealSchema_shape_distinct: "distinct (map fst (dealSchema_shape P))"
  by (simp add: dealSchema_shape_def S_def)










lemma mergeObjectSync_dirty: "mergeObjectSync True acc ps \<noteq> OK v"
  using mergeObjectSync_OK [of True acc ps] by auto

lemma mergeObjectSync_other:
  "mergeObjectSync d acc ps = OK v \<Longrightarrow> k \<notin> fst ` set ps \<Longrightarrow> map_of v k = map_of acc k"
proof (induction d acc ps rule: mergeObjectSync.induct)
  case (1 d acc)
  then show ?case by (simp split: if_splits)
next
  case (2 d acc k' alwaysSet ps)
  then show ?case by simp
next
  case (3 d acc k' x alwaysSet ps)
  then show ?case by (simp add: mergeObjectSync_dirty)
next
  case (4 d acc k' x alwaysSet ps)
  then show ?case by (auto simp: map_add_def split: if_splits option.splits)
qed

lemma mergeObjectSync_get_prop:
  "mergeObjectSync d acc ps = OK v \<Longrightarrow> distinct (map fst ps) \<Longrightarrow> (k, OK x, a) \<in> set ps
   \<Longrightarrow> map_of acc k = None \<Longrightarrow> k \<noteq> S ''__proto__'' \<Longrightarrow> get_prop v k = x"
proof (induction d acc ps rule: mergeObjectSync.induct)
  case (1 d acc)
  then show ?case by simp
next
  case (2 d acc k' alwaysSet ps)
  then show ?case by simp
next
  case (3 d acc k' y alwaysSet ps)
  from 3(2) show ?case by (simp add: mergeObjectSync_dirty)
next
  case (4 d acc k' y alwaysSet ps)
  show ?case
  proof (cases "k' = k")
    case True
    with 4(3,4) have y: "y = x" and a: "alwaysSet = a" and notin: "k \<notin> fst ` set ps"
      by (auto simp: image_iff)
    from 4(2) True y a have m: "mergeObjectSync d
         (if x \<noteq> Undefined \<or> a then acc @ [(k, x)] else acc) ps = OK v"
      using 4(6) by simp
    from mergeObjectSync_other [OF m notin] 4(5) show ?thesis
      by (auto simp: get_prop_def map_add_def split: if_splits option.splits)
  next
    case False
    with 4 show ?thesis by (auto simp: map_add_def split: if_splits option.splits)
  qed
qed

lemma z_object_get_prop:
  assumes parse: "safeParse (z_object shp) obj = Inr data"
    and dist: "distinct (map fst shp)" and field: "(k, sch) \<in> set shp"
    and val: "sch (get_prop obj k) = (OK x, iss)" and k: "k \<noteq> S ''__proto__''"
  shows "get_prop data k = x"
proof -
  let ?ps = "map (\<lambda>(k, s). (k, fst (s (get_prop obj k)), has_prop obj k)) shp"
  from parse have m: "mergeObjectSync False [] ?ps = OK data"
    by (auto simp: safeParse_def z_object_def split: parse_return.splits)
  have keys: "map fst ?ps = map fst shp" by (simp add: split_beta)
  from field val have mem: "(k, OK x, has_prop obj k) \<in> set ?ps"
    by (force simp: image_iff)
  from dist have d: "distinct (map fst ?ps)" by (simp only: keys)
  from mergeObjectSync_get_prop [OF m d mem _ k] show ?thesis by simp
qed

lemma blank_max:
  "transform (or (optional (z_string P [Max n m])) z_literal_empty) or_undefined (Str [])
     = (OK Undefined, [])"
  by (simp add: transform_def or_def optional_def z_string_def z_literal_empty_def
      or_undefined_def)

lemma blank_phone: "phoneSchema P (Str []) = (OK Undefined, [])"
  by (simp add: phoneSchema_def transform_def or_def optional_def z_string_def
      z_literal_empty_def or_undefined_def phone_pattern_def)

lemma blank_url: "urlSchema P (Str []) = (OK Undefined, [])"
  by (simp add: urlSchema_def transform_def or_def optional_def z_string_def
      z_literal_empty_def or_undefined_def)

lemma blank_uuid:
  "transform (or (optional (uuidSchema P)) z_literal_empty) or_undefined (Str [])
     = (OK Undefined, [])"
  by (simp add: uuidSchema_def transform_def or_def optional_def z_string_def
      z_literal_empty_def or_undefined_def)

lemma blank_any:
  "transform (or (optional (z_string P [])) z_literal_empty) or_undefined (Str [])
     = (OK Undefined, [])"
  by (simp add: transform_def or_def optional_def z_string_def z_literal_empty_def
      or_undefined_def)


lemma get_prop_set_prop_other: "k \<noteq> k' \<Longrightarrow> get_prop (set_prop obj k' v) k = get_prop obj k"
  by (induction obj k' v rule: set_prop.induct) (auto simp: get_prop_def)

lemma partial_field: "(k, sch) \<in> set shp \<Longrightarrow> (k, optional sch) \<in> set (partial shp)"
  by (force simp: partial_def image_iff)

lemma optional_blank: "optional sch (Str []) = sch (Str [])"
  by (simp add: optional_def)

lemma z_object_no_message:
  assumes dist: "distinct (map fst shp)" and field: "(k, sch) \<in> set shp"
    and val: "sch (get_prop obj k) = (OK x, [])"
    and parse: "safeParse (z_object shp) obj = Inl iss"
  shows "map_of (fieldErrors iss) k = None"
proof -
  from safeParse_Inl_issues [OF parse] have iss: "iss = snd (z_object shp obj)"
    by (rule conjunct1)
  from dist field have "messages_at k (snd (z_object shp obj)) = messages (sch (get_prop obj k))"
    by (rule messages_at_z_object)
  with val iss have "messages_at k iss = []" by (simp add: messages_def)
  then show ?thesis by (simp add: map_of_fieldErrors)
qed

lemma z_object_blank_field:
  assumes dist: "distinct (map fst shp)" and field: "(k, sch) \<in> set shp"
    and blank: "sch (Str []) = (OK Undefined, [])" and inp: "get_prop obj k = Str []"
    and k: "k \<noteq> S ''__proto__''"
  shows "(\<forall>data. safeParse (z_object shp) obj = Inr data
                \<or> safeParse (z_object (partial shp)) obj = Inr data
            \<longrightarrow> get_prop data k = Undefined)
       \<and> (\<forall>iss. safeParse (z_object shp) obj = Inl iss
                \<or> safeParse (z_object (partial shp)) obj = Inl iss
            \<longrightarrow> map_of (fieldErrors iss) k = None)"
proof -
  from dist have pdist: "distinct (map fst (partial shp))" by (simp add: partial_keys)
  from field have pfield: "(k, optional sch) \<in> set (partial shp)" by (rule partial_field)
  from blank inp have val: "sch (get_prop obj k) = (OK Undefined, [])" by simp
  from blank inp have pval: "optional sch (get_prop obj k) = (OK Undefined, [])"
    by (simp add: optional_blank)
  have a: "get_prop data k = Undefined" if "safeParse (z_object shp) obj = Inr data" for data
    using that dist field val k by (rule z_object_get_prop)
  have b: "get_prop data k = Undefined"
    if "safeParse (z_object (partial shp)) obj = Inr data" for data
    using that pdist pfield pval k by (rule z_object_get_prop)
  have c: "map_of (fieldErrors iss) k = None" if "safeParse (z_object shp) obj = Inl iss" for iss
    using dist field val that by (rule z_object_no_message)
  have d: "map_of (fieldErrors iss) k = None"
    if "safeParse (z_object (partial shp)) obj = Inl iss" for iss
    using pdist pfield pval that by (rule z_object_no_message)
  from a b c d show ?thesis by blast
qed

lemma organizationSchema_shape_distinct: "distinct (map fst (organizationSchema_shape P))"
  by (simp add: organizationSchema_shape_def S_def)

lemma contact_blank:
  assumes "k \<in> set [S ''phone'', S ''title'', S ''organizationId'', S ''notes'',
                    S ''linkedinUrl'', S ''twitterUrl'']"
    and "(k, sch) \<in> set (contactSchema_shape P)"
  shows "sch (Str []) = (OK Undefined, [])"
  using assms
  by (auto simp: contactSchema_shape_def S_def blank_max blank_phone blank_url blank_uuid)

lemma deal_blank:
  assumes "k \<in> set [S ''description'', S ''contactId'', S ''organizationId'',
                    S ''expectedCloseDate'', S ''notes'']"
    and "(k, sch) \<in> set (dealSchema_shape P)"
  shows "sch (Str []) = (OK Undefined, [])"
  using assms
  by (auto simp: dealSchema_shape_def S_def blank_max blank_uuid blank_any)

lemma organization_blank:
  assumes "k \<in> set [S ''website'', S ''industry'', S ''description'', S ''address'', S ''city'',
                    S ''state'', S ''country'', S ''postalCode'', S ''linkedinUrl'',
                    S ''logoUrl'']"
    and "(k, sch) \<in> set (organizationSchema_shape P)"
  shows "sch (Str []) = (OK Undefined, [])"
  using assms
  by (auto simp: organizationSchema_shape_def S_def blank_max blank_url)

lemma contact_blank_present:
  assumes "k \<in> set [S ''phone'', S ''title'', S ''organizationId'', S ''notes'',
                    S ''linkedinUrl'', S ''twitterUrl'']"
  shows "\<exists>sch. (k, sch) \<in> set (contactSchema_shape P)"
  using assms by (auto simp: contactSchema_shape_def)

lemma deal_blank_present:
  assumes "k \<in> set [S ''description'', S ''contactId'', S ''organizationId'',
                    S ''expectedCloseDate'', S ''notes'']"
  shows "\<exists>sch. (k, sch) \<in> set (dealSchema_shape P)"
  using assms by (auto simp: dealSchema_shape_def)

lemma organization_blank_present:
  assumes "k \<in> set [S ''website'', S ''industry'', S ''description'', S ''address'', S ''city'',
                    S ''state'', S ''country'', S ''postalCode'', S ''linkedinUrl'',
                    S ''logoUrl'']"
  shows "\<exists>sch. (k, sch) \<in> set (organizationSchema_shape P)"
  using assms by (auto simp: organizationSchema_shape_def)

lemma createContact_log:
  assumes auth: "session_user w = Some u"
    and parse: "safeParse (contactSchema P) (Object_fromEntries formData) = Inr data"
  shows "db_log (snd (createContact P w formData)) =
           db_log w @ [InsertContacts (set_prop data (S ''userId'') (Str (user_id u)))]"
proof (cases "db_insert_contacts w (set_prop data (S ''userId'') (Str (user_id u)))")
  case (Inl e)
  then have log: "db_log (snd e) =
      db_log w @ [InsertContacts (set_prop data (S ''userId'') (Str (user_id u)))]"
    by (auto simp: db_insert_contacts_def Let_def split: option.splits)
  from auth parse Inl have "createContact P w formData = handleActionError (snd e) (fst e)"
    by (simp add: createContact_def createContact_try_def split_beta)
  with log show ?thesis by (simp add: handleActionError_keeps_rows)
next
  case (Inr r)
  then have log: "db_log (snd r) =
      db_log w @ [InsertContacts (set_prop data (S ''userId'') (Str (user_id u)))]"
    by (auto simp: db_insert_contacts_def Let_def split: option.splits)
  from auth parse Inr have "snd (createContact P w formData) =
      revalidatePath (snd r) (S ''/contacts'')"
    by (simp add: createContact_def createContact_try_def split_beta)
  with log show ?thesis by (simp add: revalidatePath_def)
qed

lemma updateContact_log:
  assumes auth: "session_user w = Some u"
    and parse: "safeParse (contactUpdateSchema P) (Object_fromEntries formData) = Inr data"
  shows "db_log (snd (updateContact P w i formData)) =
           db_log w @ [UpdateContacts data i (user_id u)]"
proof (cases "db_update_contacts w data i (user_id u)")
  case (Inl e)
  then have log: "db_log (snd e) = db_log w @ [UpdateContacts data i (user_id u)]"
    by (auto simp: db_update_contacts_def Let_def split: option.splits if_splits)
  from auth parse Inl have "updateContact P w i formData = handleActionError (snd e) (fst e)"
    by (simp add: updateContact_def updateContact_try_def split_beta)
  with log show ?thesis by (simp add: handleActionError_keeps_rows)
next
  case (Inr r)
  then have log: "db_log (snd r) = db_log w @ [UpdateContacts data i (user_id u)]"
    by (auto simp: db_update_contacts_def Let_def split: option.splits if_splits)
  show ?thesis
  proof (cases "fst r")
    case Nil
    with auth parse Inr have "updateContact P w i formData =
        handleActionError (snd r) (NotFoundError (S ''Contact''))"
      by (cases r) (simp add: updateContact_def updateContact_try_def)
    with log show ?thesis by (simp add: handleActionError_keeps_rows)
  next
    case (Cons row rest)
    with auth parse Inr have "snd (updateContact P w i formData) =
        revalidatePath (revalidatePath (snd r) (S ''/contacts'')) (S ''/contacts/'' @ i)"
      by (cases r) (simp add: updateContact_def updateContact_try_def)
    with log show ?thesis by (simp add: revalidatePath_def)
  qed
qed


text \<open>
  Claim C10. The optional text fields of the entity schemas are \<open>phone\<close>, \<open>title\<close>,
  \<open>organizationId\<close>, \<open>notes\<close>, \<open>linkedinUrl\<close> and \<open>twitterUrl\<close> of a contact,
  \<open>description\<close>, \<open>contactId\<close>, \<open>organizationId\<close>, \<open>expectedCloseDate\<close> and \<open>notes\<close> of a
  deal, and \<open>website\<close>, \<open>industry\<close>, \<open>description\<close>, \<open>address\<close>, \<open>city\<close>, \<open>state\<close>,
  \<open>country\<close>, \<open>postalCode\<close>, \<open>linkedinUrl\<close> and \<open>logoUrl\<close> of an organization. The schema
  of each of them parses the empty string cleanly, with no issue, to \<open>undefined\<close>. So when
  the input of a create or an update schema has the empty string in such a field, the
  validated output has \<open>undefined\<close> there, and when the input is rejected for another
  field, the errors have no entry for this one. For a signed-in caller whose form passes
  the schema, the one statement that \<open>createContact\<close> or \<open>updateContact\<close> sends to the
  database has no value for the field.
\<close>

theorem blank_field_is_absent:
  "(\<forall>k sch. k \<in> set [S ''phone'', S ''title'', S ''organizationId'', S ''notes'',
                       S ''linkedinUrl'', S ''twitterUrl'']
        \<and> (k, sch) \<in> set (contactSchema_shape P)
      \<longrightarrow> sch (Str []) = (OK Undefined, []))
   \<and> (\<forall>k sch. k \<in> set [S ''description'', S ''contactId'', S ''organizationId'',
                         S ''expectedCloseDate'', S ''notes'']
        \<and> (k, sch) \<in> set (dealSchema_shape P)
      \<longrightarrow> sch (Str []) = (OK Undefined, []))
   \<and> (\<forall>k sch. k \<in> set [S ''website'', S ''industry'', S ''description'', S ''address'',
                         S ''city'', S ''state'', S ''country'', S ''postalCode'',
                         S ''linkedinUrl'', S ''logoUrl'']
        \<and> (k, sch) \<in> set (organizationSchema_shape P)
      \<longrightarrow> sch (Str []) = (OK Undefined, []))
   \<and> (\<forall>k obj. k \<in> set [S ''phone'', S ''title'', S ''organizationId'', S ''notes'',
                         S ''linkedinUrl'', S ''twitterUrl'']
        \<and> get_prop obj k = Str []
      \<longrightarrow> (\<forall>data. safeParse (contactSchema P) obj = Inr data
                   \<or> safeParse (contactUpdateSchema P) obj = Inr data
               \<longrightarrow> get_prop data k = Undefined)
        \<and> (\<forall>iss. safeParse (contactSchema P) obj = Inl iss
                   \<or> safeParse (contactUpdateSchema P) obj = Inl iss
               \<longrightarrow> map_of (fieldErrors iss) k = None))
   \<and> (\<forall>k obj. k \<in> set [S ''description'', S ''contactId'', S ''organizationId'',
                         S ''expectedCloseDate'', S ''notes'']
        \<and> get_prop obj k = Str []
      \<longrightarrow> (\<forall>data. safeParse (dealSchema P) obj = Inr data
                   \<or> safeParse (dealUpdateSchema P) obj = Inr data
               \<longrightarrow> get_prop data k = Undefined)
        \<and> (\<forall>iss. safeParse (dealSchema P) obj = Inl iss
                   \<or> safeParse (dealUpdateSchema P) obj = Inl iss
               \<longrightarrow> map_of (fieldErrors iss) k = None))
   \<and> (\<forall>k obj. k \<in> set [S ''website'', S ''industry'', S ''description'', S ''address'',
                         S ''city'', S ''state'', S ''country'', S ''postalCode'',
                         S ''linkedinUrl'', S ''logoUrl'']
        \<and> get_prop obj k = Str []
      \<longrightarrow> (\<forall>data. safeParse (organizationSchema P) obj = Inr data
                   \<or> safeParse (organizationUpdateSchema P) obj = Inr data
               \<longrightarrow> get_prop data k = Undefined)
        \<and> (\<forall>iss. safeParse (organizationSchema P) obj = Inl iss
                   \<or> safeParse (organizationUpdateSchema P) obj = Inl iss
               \<longrightarrow> map_of (fieldErrors iss) k = None))
   \<and> (\<forall>k u data. session_user w = Some u
        \<and> k \<in> set [S ''phone'', S ''title'', S ''organizationId'', S ''notes'',
                     S ''linkedinUrl'', S ''twitterUrl'']
        \<and> get_prop (Object_fromEntries formData) k = Str []
        \<and> safeParse (contactSchema P) (Object_fromEntries formData) = Inr data
      \<longrightarrow> (\<exists>vals. db_log (snd (createContact P w formData)) = db_log w @ [InsertContacts vals]
                 \<and> get_prop vals k = Undefined))
   \<and> (\<forall>k u data. session_user w = Some u
        \<and> k \<in> set [S ''phone'', S ''title'', S ''organizationId'', S ''notes'',
                     S ''linkedinUrl'', S ''twitterUrl'']
        \<and> get_prop (Object_fromEntries formData) k = Str []
        \<and> safeParse (contactUpdateSchema P) (Object_fromEntries formData) = Inr data
      \<longrightarrow> (\<exists>vals. db_log (snd (updateContact P w i formData))
                    = db_log w @ [UpdateContacts vals i (user_id u)]
                 \<and> get_prop vals k = Undefined))"
proof -
  have proto: "k \<noteq> S ''__proto__''"
    if "k \<in> set [S ''phone'', S ''title'', S ''organizationId'', S ''notes'',
                  S ''linkedinUrl'', S ''twitterUrl'', S ''description'', S ''contactId'',
                  S ''expectedCloseDate'', S ''website'', S ''industry'', S ''address'',
                  S ''city'', S ''state'', S ''country'', S ''postalCode'', S ''logoUrl'']"
    for k
    using that by (auto simp: S_def)
  have c1: "sch (Str []) = (OK Undefined, [])"
    if "k \<in> set [S ''phone'', S ''title'', S ''organizationId'', S ''notes'',
                  S ''linkedinUrl'', S ''twitterUrl'']
        \<and> (k, sch) \<in> set (contactSchema_shape P)" for k sch
    using that contact_blank [of k sch P] by simp
  have d1: "sch (Str []) = (OK Undefined, [])"
    if "k \<in> set [S ''description'', S ''contactId'', S ''organizationId'',
                  S ''expectedCloseDate'', S ''notes'']
        \<and> (k, sch) \<in> set (dealSchema_shape P)" for k sch
    using that deal_blank [of k sch P] by simp
  have o1: "sch (Str []) = (OK Undefined, [])"
    if "k \<in> set [S ''website'', S ''industry'', S ''description'', S ''address'',
                  S ''city'', S ''state'', S ''country'', S ''postalCode'',
                  S ''linkedinUrl'', S ''logoUrl'']
        \<and> (k, sch) \<in> set (organizationSchema_shape P)" for k sch
    using that organization_blank [of k sch P] by simp
  have c2: "(\<forall>data. safeParse (contactSchema P) obj = Inr data
                   \<or> safeParse (contactUpdateSchema P) obj = Inr data
               \<longrightarrow> get_prop data k = Undefined)
        \<and> (\<forall>iss. safeParse (contactSchema P) obj = Inl iss
                   \<or> safeParse (contactUpdateSchema P) obj = Inl iss
               \<longrightarrow> map_of (fieldErrors iss) k = None)"
    if "k \<in> set [S ''phone'', S ''title'', S ''organizationId'', S ''notes'',
                  S ''linkedinUrl'', S ''twitterUrl'']
        \<and> get_prop obj k = Str []" for k obj
  proof -
    from that have mem: "k \<in> set [S ''phone'', S ''title'', S ''organizationId'', S ''notes'',
                  S ''linkedinUrl'', S ''twitterUrl'']" and inp: "get_prop obj k = Str []"
      by simp_all
    from contact_blank_present [OF mem] obtain sch
      where field: "(k, sch) \<in> set (contactSchema_shape P)" by blast
    from mem field have blank: "sch (Str []) = (OK Undefined, [])" by (rule contact_blank)
    from mem have "k \<noteq> S ''__proto__''" by (intro proto) auto
    from z_object_blank_field [OF contactSchema_shape_distinct field blank inp this]
    show ?thesis unfolding contactSchema_def contactUpdateSchema_def .
  qed
  have d2: "(\<forall>data. safeParse (dealSchema P) obj = Inr data
                   \<or> safeParse (dealUpdateSchema P) obj = Inr data
               \<longrightarrow> get_prop data k = Undefined)
        \<and> (\<forall>iss. safeParse (dealSchema P) obj = Inl iss
                   \<or> safeParse (dealUpdateSchema P) obj = Inl iss
               \<longrightarrow> map_of (fieldErrors iss) k = None)"
    if "k \<in> set [S ''description'', S ''contactId'', S ''organizationId'',
                  S ''expectedCloseDate'', S ''notes'']
        \<and> get_prop obj k = Str []" for k obj
  proof -
    from that have mem: "k \<in> set [S ''description'', S ''contactId'', S ''organizationId'',
                  S ''expectedCloseDate'', S ''notes'']" and inp: "get_prop obj k = Str []"
      by simp_all
    from deal_blank_present [OF mem] obtain sch
      where field: "(k, sch) \<in> set (dealSchema_shape P)" by blast
    from mem field have blank: "sch (Str []) = (OK Undefined, [])" by (rule deal_blank)
    from mem have "k \<noteq> S ''__proto__''" by (intro proto) auto
    from z_object_blank_field [OF dealSchema_shape_distinct field blank inp this]
    show ?thesis unfolding dealSchema_def dealUpdateSchema_def .
  qed
  have o2: "(\<forall>data. safeParse (organizationSchema P) obj = Inr data
                   \<or> safeParse (organizationUpdateSchema P) obj = Inr data
               \<longrightarrow> get_prop data k = Undefined)
        \<and> (\<forall>iss. safeParse (organizationSchema P) obj = Inl iss
                   \<or> safeParse (organizationUpdateSchema P) obj = Inl iss
               \<longrightarrow> map_of (fieldErrors iss) k = None)"
    if "k \<in> set [S ''website'', S ''industry'', S ''description'', S ''address'',
                  S ''city'', S ''state'', S ''country'', S ''postalCode'',
                  S ''linkedinUrl'', S ''logoUrl'']
        \<and> get_prop obj k = Str []" for k obj
  proof -
    from that have mem: "k \<in> set [S ''website'', S ''industry'', S ''description'',
                  S ''address'', S ''city'', S ''state'', S ''country'', S ''postalCode'',
                  S ''linkedinUrl'', S ''logoUrl'']" and inp: "get_prop obj k = Str []"
      by simp_all
    from organization_blank_present [OF mem] obtain sch
      where field: "(k, sch) \<in> set (organizationSchema_shape P)" by blast
    from mem field have blank: "sch (Str []) = (OK Undefined, [])"
      by (rule organization_blank)
    from mem have "k \<noteq> S ''__proto__''" by (intro proto) auto
    from z_object_blank_field [OF organizationSchema_shape_distinct field blank inp this]
    show ?thesis unfolding organizationSchema_def organizationUpdateSchema_def .
  qed
  have c3: "\<exists>vals. db_log (snd (createContact P w formData)) = db_log w @ [InsertContacts vals]
                 \<and> get_prop vals k = Undefined"
    if "session_user w = Some u
        \<and> k \<in> set [S ''phone'', S ''title'', S ''organizationId'', S ''notes'',
                     S ''linkedinUrl'', S ''twitterUrl'']
        \<and> get_prop (Object_fromEntries formData) k = Str []
        \<and> safeParse (contactSchema P) (Object_fromEntries formData) = Inr data" for k u data
  proof -
    from that have auth: "session_user w = Some u"
      and mem: "k \<in> set [S ''phone'', S ''title'', S ''organizationId'', S ''notes'',
                     S ''linkedinUrl'', S ''twitterUrl'']"
      and inp: "get_prop (Object_fromEntries formData) k = Str []"
      and parse: "safeParse (contactSchema P) (Object_fromEntries formData) = Inr data"
      by simp_all
    from c2 [of k "Object_fromEntries formData"] mem inp parse
    have absent: "get_prop data k = Undefined" by blast
    from mem have "k \<noteq> S ''userId''" by (auto simp: S_def)
    with absent have "get_prop (set_prop data (S ''userId'') (Str (user_id u))) k = Undefined"
      by (simp add: get_prop_set_prop_other)
    with createContact_log [OF auth parse] show ?thesis by blast
  qed
  have c4: "\<exists>vals. db_log (snd (updateContact P w i formData))
                    = db_log w @ [UpdateContacts vals i (user_id u)]
                 \<and> get_prop vals k = Undefined"
    if "session_user w = Some u
        \<and> k \<in> set [S ''phone'', S ''title'', S ''organizationId'', S ''notes'',
                     S ''linkedinUrl'', S ''twitterUrl'']
        \<and> get_prop (Object_fromEntries formData) k = Str []
        \<and> safeParse (contactUpdateSchema P) (Object_fromEntries formData) = Inr data"
    for k u data
  proof -
    from that have auth: "session_user w = Some u"
      and mem: "k \<in> set [S ''phone'', S ''title'', S ''organizationId'', S ''notes'',
                     S ''linkedinUrl'', S ''twitterUrl'']"
      and inp: "get_prop (Object_fromEntries formData) k = Str []"
      and parse: "safeParse (contactUpdateSchema P) (Object_fromEntries formData) = Inr data"
      by simp_all
    from c2 [of k "Object_fromEntries formData"] mem inp parse
    have absent: "get_prop data k = Undefined" by blast
    with updateContact_log [OF auth parse] show ?thesis by blast
  qed
  show ?thesis
    apply (intro conjI)
    subgoal by (intro allI impI) (erule c1)
    subgoal by (intro allI impI) (erule d1)
    subgoal by (intro allI impI) (erule o1)
    subgoal by (intro allI impI) (erule c2)
    subgoal by (intro allI impI) (erule d2)
    subgoal by (intro allI impI) (erule o2)
    subgoal by (intro allI impI) (erule c3)
    subgoal by (intro allI impI) (erule c4)
    done
qed

theorem blank_field_is_absent_witness:
  "phoneSchema example_platform (Str []) = (OK Undefined, [])
   \<and> session_user (example_world (Some alice)) = Some alice
   \<and> get_prop (Object_fromEntries blank_fields_form) (S ''phone'') = Str []
   \<and> safeParse (contactSchema example_platform) (Object_fromEntries blank_fields_form) =
       Inr [(S ''firstName'', Str (S ''John'')), (S ''lastName'', Str (S ''Doe'')),
            (S ''email'', Str (S ''john@example.com'')), (S ''phone'', Undefined),
            (S ''title'', Undefined), (S ''type'', Str (S ''lead'')),
            (S ''organizationId'', Undefined), (S ''notes'', Undefined),
            (S ''linkedinUrl'', Undefined), (S ''twitterUrl'', Undefined)]
   \<and> (\<exists>vals. db_log (snd (createContact example_platform (example_world (Some alice))
                 blank_fields_form))
          = db_log (example_world (Some alice)) @ [InsertContacts vals]
        \<and> get_prop vals (S ''phone'') = Undefined)"
proof -
  note all = blank_field_is_absent [where P = example_platform
      and w = "example_world (Some alice)" and formData = blank_fields_form and i = c1_id]
  have field: "(S ''phone'', phoneSchema example_platform)
      \<in> set (contactSchema_shape example_platform)"
    by (simp add: contactSchema_shape_def)
  have schema: "phoneSchema example_platform (Str []) = (OK Undefined, [])"
    using all [THEN conjunct1, rule_format, where k = "S ''phone''"
        and sch = "phoneSchema example_platform"] field
    by simp
  have auth: "session_user (example_world (Some alice)) = Some alice"
    by (simp add: example_world_def)
  have inp: "get_prop (Object_fromEntries blank_fields_form) (S ''phone'') = Str []"
    by (simp add: blank_fields_form_def Object_fromEntries_def get_prop_def S_def)
  have parse: "safeParse (contactSchema example_platform) (Object_fromEntries blank_fields_form) =
       Inr [(S ''firstName'', Str (S ''John'')), (S ''lastName'', Str (S ''Doe'')),
            (S ''email'', Str (S ''john@example.com'')), (S ''phone'', Undefined),
            (S ''title'', Undefined), (S ''type'', Str (S ''lead'')),
            (S ''organizationId'', Undefined), (S ''notes'', Undefined),
            (S ''linkedinUrl'', Undefined), (S ''twitterUrl'', Undefined)]"
    by (simp add: schema_eval blank_fields_form_def safeParse_def canonical_uuid_def
        startsWith_def)
  have log: "\<exists>vals. db_log (snd (createContact example_platform (example_world (Some alice))
                 blank_fields_form))
          = db_log (example_world (Some alice)) @ [InsertContacts vals]
        \<and> get_prop vals (S ''phone'') = Undefined"
    using all [THEN conjunct2, THEN conjunct2, THEN conjunct2, THEN conjunct2, THEN conjunct2,
        THEN conjunct2, THEN conjunct1, rule_format, where k = "S ''phone''" and u = alice,
        OF conjI [OF auth conjI [OF _ conjI [OF inp parse]]]]
    by simp
  from schema auth inp parse log show ?thesis by (intro conjI)
qed


lemma field_local_z_object: "field_local (z_object shp)"
proof -
  have "accepts (z_object shp) obj =
        (\<forall>k. (\<lambda>k v. \<forall>s. (k, s) \<in> set shp \<longrightarrow> clean (s v)) k (get_prop obj k))" for obj
    by (auto simp: accepts_iff_clean z_object_clean)
  then show ?thesis unfolding field_local_def by (rule_tac x = "\<lambda>k v. \<forall>s. (k, s) \<in> set shp \<longrightarrow> clean (s v)" in exI) simp
qed

lemma messages_at_z_object_local:
  assumes "get_prop obj k = get_prop obj' k"
  shows "messages_at k (snd (z_object shp obj)) = messages_at k (snd (z_object shp obj'))"
  using assms
  by (induction shp) (auto simp: z_object_issues messages_at_append messages_at_key_issues)

lemma field_messages_local_z_object: "field_messages_local (z_object shp)"
  unfolding field_messages_local_def
proof (intro allI impI)
  fix obj obj' :: jsobject and k
  assume "get_prop obj k = get_prop obj' k"
  then have "messages_at k (snd (z_object shp obj)) = messages_at k (snd (z_object shp obj'))"
    by (rule messages_at_z_object_local)
  then show "map_of (fieldErrors (snd (z_object shp obj))) k =
             map_of (fieldErrors (snd (z_object shp obj'))) k"
    by (simp only: map_of_fieldErrors)
qed

lemma accepts_Inr: "accepts sch obj \<longleftrightarrow> (\<exists>x. safeParse sch obj = Inr x)"
  by (cases "safeParse sch obj") (auto simp: accepts_def)

lemma refine_accepts:
  "accepts (refine inner pred iss) obj \<longleftrightarrow> (\<exists>x. safeParse inner obj = Inr x \<and> pred x)"
  by (cases "inner obj"; cases "fst (inner obj)")
     (auto simp: accepts_def safeParse_def refine_def)

lemma password_kept:
  assumes "z_string P passwordChecks v = (OK x, iss)"
  shows "x = v \<and> (\<exists>s. v = Str s)"
  using assms
  by (auto simp: z_string_def passwordChecks_def split: jsval.splits if_splits prod.splits)

lemma confirmPassword_kept:
  assumes "z_string P [Min n m] v = (OK x, iss)"
  shows "x = v"
  using assms
  by (auto simp: z_string_def split: jsval.splits if_splits prod.splits)

lemma passwordsMatch_parsed:
  assumes parse: "safeParse (z_object shp) obj = Inr data"
    and dist: "distinct (map fst shp)"
    and pw: "(S ''password'', z_string P passwordChecks) \<in> set shp"
    and cf: "(S ''confirmPassword'', z_string P [Min n m]) \<in> set shp"
  shows "passwordsMatch data =
           (get_prop obj (S ''password'') = get_prop obj (S ''confirmPassword''))"
proof -
  from parse have "clean (z_object shp obj)"
    using accepts_Inr [of "z_object shp" obj] by (simp add: accepts_iff_clean)
  then have all: "\<forall>ks\<in>set shp. clean (snd ks (get_prop obj (fst ks)))"
    by (simp add: z_object_clean)
  from all pw have "clean (z_string P passwordChecks (get_prop obj (S ''password'')))"
    by force
  then obtain x i where x: "z_string P passwordChecks (get_prop obj (S ''password'')) = (OK x, i)"
    by (cases "z_string P passwordChecks (get_prop obj (S ''password''))")
       (auto simp: clean_iff)
  from all cf have "clean (z_string P [Min n m] (get_prop obj (S ''confirmPassword'')))"
    by force
  then obtain y j where y: "z_string P [Min n m] (get_prop obj (S ''confirmPassword'')) = (OK y, j)"
    by (cases "z_string P [Min n m] (get_prop obj (S ''confirmPassword''))")
       (auto simp: clean_iff)
  have p1: "S ''password'' \<noteq> S ''__proto__''" and p2: "S ''confirmPassword'' \<noteq> S ''__proto__''"
    by (simp_all add: S_def)
  from z_object_get_prop [OF parse dist pw x p1] password_kept [OF x]
  have a: "get_prop data (S ''password'') = get_prop obj (S ''password'')"
    and str: "\<exists>s. get_prop obj (S ''password'') = Str s" by simp_all
  from z_object_get_prop [OF parse dist cf y p2] confirmPassword_kept [OF y]
  have b: "get_prop data (S ''confirmPassword'') = get_prop obj (S ''confirmPassword'')"
    by simp
  from a b str show ?thesis by (auto simp: passwordsMatch_def strict_equals_def)
qed

lemma registerSchema_accepts:
  "accepts (registerSchema P) obj =
     (accepts (z_object (registerSchema_shape P)) obj
      \<and> get_prop obj (S ''password'') = get_prop obj (S ''confirmPassword''))"
proof -
  have dist: "distinct (map fst (registerSchema_shape P))"
    by (simp add: registerSchema_shape_def S_def)
  have pw: "(S ''password'', z_string P passwordChecks) \<in> set (registerSchema_shape P)"
    and cf: "(S ''confirmPassword'', z_string P [Min 1 (S ''Please confirm your password'')])
        \<in> set (registerSchema_shape P)"
    by (simp_all add: registerSchema_shape_def)
  have match: "passwordsMatch data =
        (get_prop obj (S ''password'') = get_prop obj (S ''confirmPassword''))"
    if "safeParse (z_object (registerSchema_shape P)) obj = Inr data" for data
    using that dist pw cf by (rule passwordsMatch_parsed)
  have "accepts (registerSchema P) obj \<longleftrightarrow>
        (\<exists>x. safeParse (z_object (registerSchema_shape P)) obj = Inr x \<and> passwordsMatch x)"
    unfolding registerSchema_def by (rule refine_accepts)
  also have "\<dots> \<longleftrightarrow> (\<exists>x. safeParse (z_object (registerSchema_shape P)) obj = Inr x)
        \<and> get_prop obj (S ''password'') = get_prop obj (S ''confirmPassword'')"
    using match by auto
  finally show ?thesis by (simp only: accepts_Inr)
qed

lemma resetPasswordSchema_accepts:
  "accepts (resetPasswordSchema P) obj =
     (accepts (z_object (resetPasswordSchema_shape P)) obj
      \<and> get_prop obj (S ''password'') = get_prop obj (S ''confirmPassword''))"
proof -
  have dist: "distinct (map fst (resetPasswordSchema_shape P))"
    by (simp add: resetPasswordSchema_shape_def S_def)
  have pw: "(S ''password'', z_string P passwordChecks) \<in> set (resetPasswordSchema_shape P)"
    and cf: "(S ''confirmPassword'', z_string P [Min 1 (S ''Please confirm your password'')])
        \<in> set (resetPasswordSchema_shape P)"
    by (simp_all add: resetPasswordSchema_shape_def)
  have match: "passwordsMatch data =
        (get_prop obj (S ''password'') = get_prop obj (S ''confirmPassword''))"
    if "safeParse (z_object (resetPasswordSchema_shape P)) obj = Inr data" for data
    using that dist pw cf by (rule passwordsMatch_parsed)
  have "accepts (resetPasswordSchema P) obj \<longleftrightarrow>
        (\<exists>x. safeParse (z_object (resetPasswordSchema_shape P)) obj = Inr x \<and> passwordsMatch x)"
    unfolding resetPasswordSchema_def by (rule refine_accepts)
  also have "\<dots> \<longleftrightarrow> (\<exists>x. safeParse (z_object (resetPasswordSchema_shape P)) obj = Inr x)
        \<and> get_prop obj (S ''password'') = get_prop obj (S ''confirmPassword'')"
    using match by auto
  finally show ?thesis by (simp only: accepts_Inr)
qed


lemma not_field_local:
  assumes a: "accepts sch a" and b: "accepts sch b" and c: "\<not> accepts sch c"
    and mix: "\<And>k. get_prop c k = get_prop a k \<or> get_prop c k = get_prop b k"
  shows "\<not> field_local sch"
proof
  assume "field_local sch"
  then obtain ok where ok: "\<And>obj. accepts sch obj = (\<forall>k. ok k (get_prop obj k))"
    unfolding field_local_def by blast
  from a ok have oa: "ok k (get_prop a k)" for k by simp
  from b ok have ob: "ok k (get_prop b k)" for k by simp
  have "ok k (get_prop c k)" for k
    using mix [of k] oa [of k] ob [of k] by auto
  with ok [of c] c show False by simp
qed

lemma S_eq_iff: "S a = S b \<longleftrightarrow> a = b"
proof -
  have "inj (of_char :: char \<Rightarrow> nat)"
    by (rule inj_on_inverseI [where g = char_of]) simp
  then show ?thesis by (simp add: S_def inj_map_eq_map)
qed

lemma Password1_clean: "clean (z_string P passwordChecks (Str (S ''Password1'')))"
  by (simp add: z_string_def passwordChecks_def clean_def has_uppercase_def
      has_lowercase_def has_number_def is_digit_def S_def)

lemma Password2_clean: "clean (z_string P passwordChecks (Str (S ''Password2'')))"
  by (simp add: z_string_def passwordChecks_def clean_def has_uppercase_def
      has_lowercase_def has_number_def is_digit_def S_def)

lemma confirm_clean:
  "clean (z_string P [Min (Suc 0) m] (Str (S ''Password1'')))"
  "clean (z_string P [Min (Suc 0) m] (Str (S ''Password2'')))"
  by (simp_all add: z_string_def clean_def S_def)

lemma John_Doe_clean:
  "clean (z_string P [Min 2 m, Max 100 m'] (Str (S ''John Doe'')))"
  by (simp add: z_string_def clean_def S_def)

lemmas password_eval =
  accepts_iff_clean z_object_clean get_prop_def S_eq_iff Password1_clean Password2_clean
  confirm_clean John_Doe_clean

lemma resetPasswordSchema_not_local: "\<not> field_local (resetPasswordSchema P)"
proof (rule not_field_local)
  show "accepts (resetPasswordSchema P)
      [(S ''password'', Str (S ''Password1'')), (S ''confirmPassword'', Str (S ''Password1''))]"
    unfolding resetPasswordSchema_accepts
    by (simp add: resetPasswordSchema_shape_def password_eval)
  show "accepts (resetPasswordSchema P)
      [(S ''password'', Str (S ''Password2'')), (S ''confirmPassword'', Str (S ''Password2''))]"
    unfolding resetPasswordSchema_accepts
    by (simp add: resetPasswordSchema_shape_def password_eval)
  show "\<not> accepts (resetPasswordSchema P)
      [(S ''password'', Str (S ''Password1'')), (S ''confirmPassword'', Str (S ''Password2''))]"
    unfolding resetPasswordSchema_accepts by (simp add: get_prop_def S_eq_iff)
  show "get_prop [(S ''password'', Str (S ''Password1'')),
                  (S ''confirmPassword'', Str (S ''Password2''))] k =
        get_prop [(S ''password'', Str (S ''Password1'')),
                  (S ''confirmPassword'', Str (S ''Password1''))] k
      \<or> get_prop [(S ''password'', Str (S ''Password1'')),
                  (S ''confirmPassword'', Str (S ''Password2''))] k =
        get_prop [(S ''password'', Str (S ''Password2'')),
                  (S ''confirmPassword'', Str (S ''Password2''))] k" for k
    by (simp add: get_prop_def)
qed

lemma registerSchema_not_local:
  assumes email: "clean (emailSchema P (Str e))"
  shows "\<not> field_local (registerSchema P)"
proof (rule not_field_local)
  show "accepts (registerSchema P)
      [(S ''email'', Str e), (S ''password'', Str (S ''Password1'')),
       (S ''confirmPassword'', Str (S ''Password1'')), (S ''fullName'', Str (S ''John Doe''))]"
    using email unfolding registerSchema_accepts
    by (simp add: registerSchema_shape_def password_eval)
  show "accepts (registerSchema P)
      [(S ''email'', Str e), (S ''password'', Str (S ''Password2'')),
       (S ''confirmPassword'', Str (S ''Password2'')), (S ''fullName'', Str (S ''John Doe''))]"
    using email unfolding registerSchema_accepts
    by (simp add: registerSchema_shape_def password_eval)
  show "\<not> accepts (registerSchema P)
      [(S ''email'', Str e), (S ''password'', Str (S ''Password1'')),
       (S ''confirmPassword'', Str (S ''Password2'')), (S ''fullName'', Str (S ''John Doe''))]"
    unfolding registerSchema_accepts by (simp add: get_prop_def S_eq_iff)
  show "get_prop [(S ''email'', Str e), (S ''password'', Str (S ''Password1'')),
                  (S ''confirmPassword'', Str (S ''Password2'')),
                  (S ''fullName'', Str (S ''John Doe''))] k =
        get_prop [(S ''email'', Str e), (S ''password'', Str (S ''Password1'')),
                  (S ''confirmPassword'', Str (S ''Password1'')),
                  (S ''fullName'', Str (S ''John Doe''))] k
      \<or> get_prop [(S ''email'', Str e), (S ''password'', Str (S ''Password1'')),
                  (S ''confirmPassword'', Str (S ''Password2'')),
                  (S ''fullName'', Str (S ''John Doe''))] k =
        get_prop [(S ''email'', Str e), (S ''password'', Str (S ''Password2'')),
                  (S ''confirmPassword'', Str (S ''Password2'')),
                  (S ''fullName'', Str (S ''John Doe''))] k" for k
    by (simp add: get_prop_def)
qed

lemma john_email_clean: "clean (emailSchema example_platform (Str (S ''john@example.com'')))"
  by (simp add: emailSchema_def z_string_def clean_def example_platform_def S_def)


text \<open>
  Claim C9, the input that refutes it. The reset-password schema, which is not the
  registration schema, accepts a form whose password and confirmation are both
  \<open>Password1\<close> and a form where both are \<open>Password2\<close>, and rejects the form with the
  password of the first and the confirmation of the second, with the message of the
  password-confirmation check on \<open>confirmPassword\<close>: whether that field is accepted depends
  on the value of another field.
\<close>

theorem reset_password_confirmation_counterexample:
  "accepts (resetPasswordSchema example_platform)
     [(S ''password'', Str (S ''Password1'')), (S ''confirmPassword'', Str (S ''Password1''))]
   \<and> accepts (resetPasswordSchema example_platform)
     [(S ''password'', Str (S ''Password2'')), (S ''confirmPassword'', Str (S ''Password2''))]
   \<and> \<not> accepts (resetPasswordSchema example_platform)
     [(S ''password'', Str (S ''Password1'')), (S ''confirmPassword'', Str (S ''Password2''))]
   \<and> safeParse (resetPasswordSchema example_platform)
     [(S ''password'', Str (S ''Password1'')), (S ''confirmPassword'', Str (S ''Password2''))]
     = Inl [([S ''confirmPassword''], S ''Passwords do not match'')]"
proof -
  have a: "accepts (resetPasswordSchema example_platform)
     [(S ''password'', Str (S ''Password1'')), (S ''confirmPassword'', Str (S ''Password1''))]"
    unfolding resetPasswordSchema_accepts
    by (simp add: resetPasswordSchema_shape_def password_eval)
  have b: "accepts (resetPasswordSchema example_platform)
     [(S ''password'', Str (S ''Password2'')), (S ''confirmPassword'', Str (S ''Password2''))]"
    unfolding resetPasswordSchema_accepts
    by (simp add: resetPasswordSchema_shape_def password_eval)
  have c: "safeParse (resetPasswordSchema example_platform)
     [(S ''password'', Str (S ''Password1'')), (S ''confirmPassword'', Str (S ''Password2''))]
     = Inl [([S ''confirmPassword''], S ''Passwords do not match'')]"
    by (simp add: safeParse_def resetPasswordSchema_def refine_def z_object_def
        resetPasswordSchema_shape_def key_issues_def get_prop_def has_prop_def z_string_def
        passwordChecks_def passwordsMatch_def strict_equals_def has_uppercase_def
        has_lowercase_def has_number_def is_digit_def S_def)
  then have d: "\<not> accepts (resetPasswordSchema example_platform)
     [(S ''password'', Str (S ''Password1'')), (S ''confirmPassword'', Str (S ''Password2''))]"
    by (simp add: accepts_def)
  from a b d c show ?thesis by (intro conjI)
qed

text \<open>
  Claim C9, as the code has it. Every object schema but the registration and the
  reset-password schema validates field by field: it accepts exactly the objects whose
  every property passes a test of that property alone, and the error entry of a key is
  decided by the value of that property alone. The registration schema and the
  reset-password schema each accept exactly the objects that their field-by-field part
  accepts and whose \<open>password\<close> and \<open>confirmPassword\<close> are equal; this equality is a
  condition across two fields, so neither of the two validates field by field (for the
  registration schema, as soon as the email pattern accepts some address).
\<close>

theorem cross_field_validation_is_password_confirmation:
  "list_all (\<lambda>sch. field_local sch \<and> field_messages_local sch)
     [paginationSchema P, searchParamsSchema P, dateRangeSchema P, loginSchema P,
      forgotPasswordSchema P, updateProfileSchema P, contactSchema P, contactUpdateSchema P,
      contactSearchSchema P, contactImportRowSchema P, dealSchema P, dealUpdateSchema P,
      dealSearchSchema P, moveDealSchema P, organizationSchema P, organizationUpdateSchema P,
      organizationSearchSchema P]
   \<and> field_local (z_object (registerSchema_shape P))
   \<and> field_local (z_object (resetPasswordSchema_shape P))
   \<and> (\<forall>obj. accepts (registerSchema P) obj =
         (accepts (z_object (registerSchema_shape P)) obj
          \<and> get_prop obj (S ''password'') = get_prop obj (S ''confirmPassword'')))
   \<and> (\<forall>obj. accepts (resetPasswordSchema P) obj =
         (accepts (z_object (resetPasswordSchema_shape P)) obj
          \<and> get_prop obj (S ''password'') = get_prop obj (S ''confirmPassword'')))
   \<and> \<not> field_local (resetPasswordSchema P)
   \<and> (\<forall>e. clean (emailSchema P (Str e)) \<longrightarrow> \<not> field_local (registerSchema P))"
proof -
  have plain: "list_all (\<lambda>sch. field_local sch \<and> field_messages_local sch)
     [paginationSchema P, searchParamsSchema P, dateRangeSchema P, loginSchema P,
      forgotPasswordSchema P, updateProfileSchema P, contactSchema P, contactUpdateSchema P,
      contactSearchSchema P, contactImportRowSchema P, dealSchema P, dealUpdateSchema P,
      dealSearchSchema P, moveDealSchema P, organizationSchema P, organizationUpdateSchema P,
      organizationSearchSchema P]"
    unfolding paginationSchema_def searchParamsSchema_def dateRangeSchema_def loginSchema_def
      forgotPasswordSchema_def updateProfileSchema_def contactSchema_def
      contactUpdateSchema_def contactSearchSchema_def contactImportRowSchema_def
      dealSchema_def dealUpdateSchema_def dealSearchSchema_def moveDealSchema_def
      organizationSchema_def organizationUpdateSchema_def organizationSearchSchema_def
    by (simp add: field_local_z_object field_messages_local_z_object)
  have reg: "\<forall>obj. accepts (registerSchema P) obj =
         (accepts (z_object (registerSchema_shape P)) obj
          \<and> get_prop obj (S ''password'') = get_prop obj (S ''confirmPassword''))"
    by (intro allI) (rule registerSchema_accepts)
  have reset: "\<forall>obj. accepts (resetPasswordSchema P) obj =
         (accepts (z_object (resetPasswordSchema_shape P)) obj
          \<and> get_prop obj (S ''password'') = get_prop obj (S ''confirmPassword''))"
    by (intro allI) (rule resetPasswordSchema_accepts)
  have nreg: "\<forall>e. clean (emailSchema P (Str e)) \<longrightarrow> \<not> field_local (registerSchema P)"
    by (intro allI impI) (erule registerSchema_not_local)
  from plain field_local_z_object [of "registerSchema_shape P"]
    field_local_z_object [of "resetPasswordSchema_shape P"] reg reset
    resetPasswordSchema_not_local [of P] nreg
  show ?thesis by (intro conjI)
qed

theorem cross_field_validation_is_password_confirmation_witness:
  "clean (emailSchema example_platform (Str (S ''john@example.com'')))
   \<and> \<not> field_local (registerSchema example_platform)
   \<and> \<not> field_local (resetPasswordSchema example_platform)
   \<and> field_local (contactSchema example_platform)"
proof -
  note all = cross_field_validation_is_password_confirmation [where P = example_platform]
  from all have "\<forall>e. clean (emailSchema example_platform (Str e))
      \<longrightarrow> \<not> field_local (registerSchema example_platform)"
    by (rule conjunct2 [THEN conjunct2, THEN conjunct2, THEN conjunct2, THEN conjunct2,
        THEN conjunct2])
  with john_email_clean have reg: "\<not> field_local (registerSchema example_platform)"
    by blast
  from all have reset: "\<not> field_local (resetPasswordSchema example_platform)"
    by (rule conjunct2 [THEN conjunct2, THEN conjunct2, THEN conjunct2, THEN conjunct2,
        THEN conjunct1])
  from all have "list_all (\<lambda>sch. field_local sch \<and> field_messages_local sch)
     [paginationSchema example_platform, searchParamsSchema example_platform,
      dateRangeSchema example_platform, loginSchema example_platform,
      forgotPasswordSchema example_platform, updateProfileSchema example_platform,
      contactSchema example_platform, contactUpdateSchema example_platform,
      contactSearchSchema example_platform, contactImportRowSchema example_platform,
      dealSchema example_platform, dealUpdateSchema example_platform,
      dealSearchSchema example_platform, moveDealSchema example_platform,
      organizationSchema example_platform, organizationUpdateSchema example_platform,
      organizationSearchSchema example_platform]"
    by (rule conjunct1)
  then have contact: "field_local (contactSchema example_platform)"
    by simp
  from john_email_clean reg reset contact show ?thesis by (intro conjI)
qed

lemma searchParams_get_set:
  "searchParams_get (searchParams_set ps name v) name = Some v"
  by (induction ps name v rule: searchParams_set.induct) (auto simp: searchParams_get_def)


section \<open>Properties of the route guard\<close>

text \<open>
  Claim C8. For a request whose path starts with one of the protected prefixes and for
  which no identity is verified, the guard answers with a redirect to \<open>/login\<close> whose
  query is the request's with \<open>redirectTo\<close> set to the request's path; reading
  \<open>redirectTo\<close> from it gives back that path.
\<close>

theorem protected_path_redirects_to_login:
  assumes "isProtectedRoute (pathname (nextUrl req))" and "verified_user req = None"
  shows "updateSession req =
           Redirect \<lparr>pathname = S ''/login'',
                     searchParams =
                       searchParams_set (searchParams (nextUrl req)) (S ''redirectTo'')
                         (pathname (nextUrl req))\<rparr>
       \<and> searchParams_get
           (searchParams_set (searchParams (nextUrl req)) (S ''redirectTo'')
              (pathname (nextUrl req)))
           (S ''redirectTo'') = Some (pathname (nextUrl req))"
  using assms by (simp add: updateSession_def searchParams_get_set)

lemmas route_eval =
  isProtectedRoute_def isAuthRoute_def protectedRoutes_def authRoutes_def startsWith_def S_def

theorem protected_path_redirects_to_login_witness:
  "isProtectedRoute (pathname (nextUrl settings_request))
   \<and> verified_user settings_request = None
   \<and> updateSession settings_request =
        Redirect \<lparr>pathname = S ''/login'',
                  searchParams = [(S ''tab'', S ''billing''),
                                  (S ''redirectTo'', S ''/settings/profile'')]\<rparr>"
proof -
  have p: "isProtectedRoute (pathname (nextUrl settings_request))"
    by (simp add: settings_request_def route_eval)
  have u: "verified_user settings_request = None"
    by (simp add: settings_request_def)
  have "S ''tab'' \<noteq> S ''redirectTo''" by (simp add: S_def)
  with protected_path_redirects_to_login [OF p u] p u show ?thesis
    by (simp add: settings_request_def)
qed




section \<open>Properties of the webhook endpoint\<close>

text \<open>
  Claim C4 says that a request whose signature is not verified is rejected with an error
  response. The endpoint verifies nothing: a request with the signature header
  \<open>forged\<close> is answered with status 200 and \<open>received: true\<close>.
\<close>

theorem unverified_webhook_counterexample:
  "POST (example_world None) forged_webhook =
     (\<lparr>status = 200,
       json = [(S ''message'',
                  Str (S ''Stripe webhook endpoint ready. Configure Stripe to enable.'')),
               (S ''received'', Bool True)]\<rparr>,
      example_world None)"
  by (simp add: POST_def forged_webhook_def S_def)

text \<open>
  Claim C4, amended. A request without a \<open>stripe-signature\<close> header, or with an empty
  one, is rejected with status 400 and the error "Missing stripe-signature header". Every
  other request is acknowledged with status 200 and the placeholder body, whatever its
  signature and body are: the signature is not verified and no event is processed. No
  request changes the world.
\<close>

theorem webhook_checks_header_only:
  "(stripe_signature req \<in> {None, Some []} \<longrightarrow>
      POST w req =
        (\<lparr>status = 400, json = [(S ''error'', Str (S ''Missing stripe-signature header''))]\<rparr>,
         w))
   \<and> (stripe_signature req \<notin> {None, Some []} \<longrightarrow>
      POST w req =
        (\<lparr>status = 200,
          json = [(S ''message'',
                     Str (S ''Stripe webhook endpoint ready. Configure Stripe to enable.'')),
                  (S ''received'', Bool True)]\<rparr>,
         w))
   \<and> snd (POST w req) = w"
  by (auto simp: POST_def split: option.splits)

theorem webhook_checks_header_only_witness:
  "stripe_signature \<lparr>body = S ''{}'', stripe_signature = None\<rparr> = None
   \<and> POST (example_world None) \<lparr>body = S ''{}'', stripe_signature = None\<rparr> =
       (\<lparr>status = 400, json = [(S ''error'', Str (S ''Missing stripe-signature header''))]\<rparr>,
        example_world None)
   \<and> stripe_signature forged_webhook = Some (S ''forged'')
   \<and> fst (POST (example_world None) forged_webhook) =
       \<lparr>status = 200,
        json = [(S ''message'',
                   Str (S ''Stripe webhook endpoint ready. Configure Stripe to enable.'')),
                (S ''received'', Bool True)]\<rparr>"
proof -
  have n: "stripe_signature \<lparr>body = S ''{}'', stripe_signature = None\<rparr> \<in> {None, Some []}"
    by simp
  have f: "stripe_signature forged_webhook \<notin> {None, Some []}"
    by (simp add: forged_webhook_def S_def)
  from webhook_checks_header_only [of "\<lparr>body = S ''{}'', stripe_signature = None\<rparr>" "example_world None"]
    webhook_checks_header_only [of forged_webhook "example_world None"] n f
  show ?thesis by (simp add: forged_webhook_def)
qed

end
